theory Spec2Isabelle
  imports Complex_Main "HOL-Library.Sublist" "HOL-Library.AList"
begin

section \<open>Python strings\<close>

text \<open>
  A Python \<^verbatim>\<open>str\<close> is a \<^typ>\<open>string\<close>, each \<^typ>\<open>char\<close> being one code point below
  256: \<^verbatim>\<open>str.lower\<close>, \<^verbatim>\<open>str.split\<close>, \<^verbatim>\<open>str.strip\<close> and the regular-expression
  classes \<^verbatim>\<open>\s\<close>, \<^verbatim>\<open>\w\<close> are what Python 3 gives on these code points. Text with
  code points from 256 on is outside the model. Python floats are modelled as
  \<^typ>\<open>real\<close>: the arithmetic is exact, with no rounding, no NaN and no infinities, so
  nothing here speaks about the rounding error of a float operation.
\<close>

definition upper_letters :: string where
  \<comment> \<open>the characters that \<^verbatim>\<open>str.lower\<close> changes: A to Z, and the upper-case letters
      of the Latin-1 block, U+00C0 to U+00DE without the multiplication sign U+00D7\<close>
  "upper_letters = ''ABCDEFGHIJKLMNOPQRSTUVWXYZ'' @
     [CHR 0xC0, CHR 0xC1, CHR 0xC2, CHR 0xC3, CHR 0xC4, CHR 0xC5, CHR 0xC6, CHR 0xC7,
      CHR 0xC8, CHR 0xC9, CHR 0xCA, CHR 0xCB, CHR 0xCC, CHR 0xCD, CHR 0xCE, CHR 0xCF,
      CHR 0xD0, CHR 0xD1, CHR 0xD2, CHR 0xD3, CHR 0xD4, CHR 0xD5, CHR 0xD6, CHR 0xD8,
      CHR 0xD9, CHR 0xDA, CHR 0xDB, CHR 0xDC, CHR 0xDD, CHR 0xDE]"

definition lower_letters :: string where
  \<comment> \<open>their lower-case forms, in the same order (each is 32 code points further)\<close>
  "lower_letters = ''abcdefghijklmnopqrstuvwxyz'' @
     [CHR 0xE0, CHR 0xE1, CHR 0xE2, CHR 0xE3, CHR 0xE4, CHR 0xE5, CHR 0xE6, CHR 0xE7,
      CHR 0xE8, CHR 0xE9, CHR 0xEA, CHR 0xEB, CHR 0xEC, CHR 0xED, CHR 0xEE, CHR 0xEF,
      CHR 0xF0, CHR 0xF1, CHR 0xF2, CHR 0xF3, CHR 0xF4, CHR 0xF5, CHR 0xF6, CHR 0xF8,
      CHR 0xF9, CHR 0xFA, CHR 0xFB, CHR 0xFC, CHR 0xFD, CHR 0xFE]"

definition is_space :: "char \<Rightarrow> bool" where
  \<comment> \<open>\<^verbatim>\<open>str.isspace\<close> and the class \<^verbatim>\<open>\s\<close> on one character: TAB, LF, VT, FF, CR, FS,
      GS, RS, US, SPACE, NEL (U+0085) and the no-break space (U+00A0)\<close>
  "is_space c = (c \<in> set [CHR 0x09, CHR 0x0A, CHR 0x0B, CHR 0x0C, CHR 0x0D,
                            CHR 0x1C, CHR 0x1D, CHR 0x1E, CHR 0x1F, CHR 0x20,
                            CHR 0x85, CHR 0xA0])"

definition is_word_char :: "char \<Rightarrow> bool" where
  \<comment> \<open>the class \<^verbatim>\<open>\w\<close> of a Python 3 pattern on text: the alphanumeric characters
      (\<^verbatim>\<open>str.isalnum\<close>) and the underscore. Below 256 these are the letters above, the
      digits, and the ordinal indicators, superscript digits, micro sign, vulgar
      fractions, sharp s and y with diaeresis.\<close>
  "is_word_char c = (c \<in> set (lower_letters @ upper_letters @ ''0123456789_'' @
     [CHR 0xAA, CHR 0xB2, CHR 0xB3, CHR 0xB5, CHR 0xB9, CHR 0xBA, CHR 0xBC, CHR 0xBD,
      CHR 0xBE, CHR 0xDF, CHR 0xFF]))"

definition lower_char :: "char \<Rightarrow> char" where
  \<comment> \<open>\<^verbatim>\<open>str.lower\<close> on one character: an upper-case letter becomes the lower-case one,
      any other character stays\<close>
  "lower_char c = (case map_of (zip upper_letters lower_letters) c of Some d \<Rightarrow> d | None \<Rightarrow> c)"

definition lower :: "string \<Rightarrow> string" where
  \<comment> \<open>\<^verbatim>\<open>s.lower()\<close>\<close>
  "lower s = map lower_char s"

fun split_aux :: "string \<Rightarrow> string \<Rightarrow> string list" where
  "split_aux w [] = (if w = [] then [] else [w])"
| "split_aux w (c # cs) =
     (if is_space c then (if w = [] then split_aux [] cs else w # split_aux [] cs)
      else split_aux (w @ [c]) cs)"

definition split :: "string \<Rightarrow> string list" where
  \<comment> \<open>\<^verbatim>\<open>s.split()\<close>: the maximal runs of non-whitespace characters, in order\<close>
  "split s = split_aux [] s"

definition strip :: "string \<Rightarrow> string" where
  \<comment> \<open>\<^verbatim>\<open>s.strip()\<close>\<close>
  "strip s = rev (dropWhile is_space (rev (dropWhile is_space s)))"

fun str_in :: "string \<Rightarrow> string \<Rightarrow> bool" where
  \<comment> \<open>\<^verbatim>\<open>sub in s\<close> on two strings: \<open>sub\<close> occurs in \<open>s\<close> as a contiguous substring\<close>
  "str_in sub [] = (sub = [])"
| "str_in sub (c # cs) = (prefix sub (c # cs) \<or> str_in sub cs)"

definition startswith :: "string \<Rightarrow> string \<Rightarrow> bool" where
  \<comment> \<open>\<^verbatim>\<open>s.startswith(p)\<close>\<close>
  "startswith s p = prefix p s"

fun join :: "string \<Rightarrow> string list \<Rightarrow> string" where
  \<comment> \<open>\<^verbatim>\<open>sep.join(xs)\<close>\<close>
  "join sep [] = []"
| "join sep [x] = x"
| "join sep (x # y # ys) = x @ sep @ join sep (y # ys)"

fun digits :: "nat \<Rightarrow> string" where
  "digits n = (if n < 10 then [char_of (48 + n)] else digits (n div 10) @ [char_of (48 + n mod 10)])"

declare digits.simps [simp del]

definition str_int :: "int \<Rightarrow> string" where
  \<comment> \<open>\<^verbatim>\<open>str(i)\<close> for a Python int: the decimal numeral, with a leading minus sign when negative\<close>
  "str_int i = (if i < 0 then CHR ''-'' # digits (nat (- i)) else digits (nat i))"

definition dedup :: "string list \<Rightarrow> string list" where
  \<comment> \<open>\<^verbatim>\<open>list(set(xs))\<close>: the distinct elements of \<open>xs\<close>. Python leaves their order
      unspecified; the model lists them in the order of their last occurrence.\<close>
  "dedup xs = remdups xs"

subsection \<open>The regular expressions of the pattern rules\<close>

definition starts_word :: "string \<Rightarrow> bool" where
  "starts_word s = (case s of [] \<Rightarrow> False | c # _ \<Rightarrow> is_word_char c)"

definition boundary_before :: "char option \<Rightarrow> bool" where
  \<comment> \<open>\<^verbatim>\<open>\b\<close> in front of a word character: the previous character, if any, is not one\<close>
  "boundary_before prev = (case prev of None \<Rightarrow> True | Some p \<Rightarrow> \<not> is_word_char p)"

definition boundary_after :: "string \<Rightarrow> bool" where
  \<comment> \<open>\<^verbatim>\<open>\b\<close> behind a word character: the next character, if any, is not one\<close>
  "boundary_after rest = (case rest of [] \<Rightarrow> True | c # _ \<Rightarrow> \<not> is_word_char c)"

fun re_word_scan :: "string \<Rightarrow> char option \<Rightarrow> string \<Rightarrow> bool" where
  "re_word_scan w prev [] = False"
| "re_word_scan w prev (c # cs) =
     ((boundary_before prev \<and> prefix w (c # cs) \<and> boundary_after (drop (length w) (c # cs)))
      \<or> re_word_scan w (Some c) cs)"

definition re_word :: "string \<Rightarrow> string \<Rightarrow> bool" where
  \<comment> \<open>\<^verbatim>\<open>re.search(r'\bw\b', text)\<close> for a literal \<open>w\<close> of word characters\<close>
  "re_word w text = re_word_scan w None text"

fun re_profit_margin_scan :: "char option \<Rightarrow> string \<Rightarrow> bool" where
  "re_profit_margin_scan prev [] = False"
| "re_profit_margin_scan prev (c # cs) =
     ((boundary_before prev \<and> prefix ''profit'' (c # cs) \<and>
       (let rest = drop 6 (c # cs); rest' = dropWhile is_space rest
        in rest' \<noteq> rest \<and> prefix ''margin'' rest' \<and> boundary_after (drop 6 rest')))
      \<or> re_profit_margin_scan (Some c) cs)"

definition re_profit_margin :: "string \<Rightarrow> bool" where
  \<comment> \<open>\<^verbatim>\<open>re.search(r'\bprofit\s+margin\b', text)\<close>\<close>
  "re_profit_margin text = re_profit_margin_scan None text"

fun re_ratio_scan :: "string \<Rightarrow> string \<Rightarrow> bool" where
  "re_ratio_scan seen [] = False"
| "re_ratio_scan seen (c # cs) =
     ((c = CHR ''/'' \<and> starts_word (dropWhile is_space seen)
         \<and> starts_word (dropWhile is_space cs))
      \<or> re_ratio_scan (c # seen) cs)"

definition re_ratio :: "string \<Rightarrow> bool" where
  \<comment> \<open>\<^verbatim>\<open>re.search(r'\b\w+\s*/\s*\w+\b', text)\<close>: a slash with a word character as the
      nearest non-blank character on either side (\<open>seen\<close> is the text read so far,
      reversed)\<close>
  "re_ratio text = re_ratio_scan [] text"

section \<open>The concept catalog and the tagger (business_concepts.py)\<close>

text \<open>The field \<^verbatim>\<open>keywords\<close> of the source is \<open>key_words\<close> here.\<close>

record BusinessConcept =
  name :: string
  synonyms :: "string list"
  key_words :: "string list"
  description :: string
  category :: string

definition mk_concept ::
  "string \<Rightarrow> string list \<Rightarrow> string list \<Rightarrow> string \<Rightarrow> string \<Rightarrow> BusinessConcept" where
  "mk_concept n syns kws descr cat =
     \<lparr>name = n, synonyms = syns, key_words = kws, description = descr, category = cat\<rparr>"

definition profitability :: "BusinessConcept list" where
  "profitability =
   [mk_concept ''gross profit margin''
      [''gross margin'', ''gross profit %'', ''gross profitability'']
      [''gross'', ''profit'', ''margin'', ''revenue'', ''cogs'']
      ''Measures profitability after cost of goods sold'' ''profitability'',
    mk_concept ''net profit margin''
      [''net margin'', ''profit margin'', ''net profitability'']
      [''net'', ''profit'', ''margin'', ''bottom line'']
      ''Overall profitability after all expenses'' ''profitability'',
    mk_concept ''operating margin''
      [''operating profit margin'', ''EBIT margin'']
      [''operating'', ''margin'', ''ebit'']
      ''Profitability from core operations'' ''profitability'',
    mk_concept ''EBITDA''
      [''earnings before interest tax depreciation amortization'']
      [''ebitda'', ''earnings'', ''cash flow proxy'']
      ''Operating performance measure'' ''profitability'',
    mk_concept ''return on investment''
      [''ROI'', ''return on assets'', ''ROA'']
      [''roi'', ''return'', ''investment'', ''efficiency'']
      ''Efficiency of investment returns'' ''profitability'']"

definition revenue :: "BusinessConcept list" where
  "revenue =
   [mk_concept ''total revenue''
      [''sales'', ''income'', ''turnover'', ''gross sales'']
      [''revenue'', ''sales'', ''income'', ''total'']
      ''Total income from business operations'' ''revenue'',
    mk_concept ''revenue growth''
      [''sales growth'', ''income growth'', ''top line growth'']
      [''growth'', ''increase'', ''yoy'', ''qoq'']
      ''Rate of revenue increase over time'' ''revenue'',
    mk_concept ''recurring revenue''
      [''subscription revenue'', ''monthly recurring revenue'', ''MRR'']
      [''recurring'', ''subscription'', ''monthly'', ''mrr'']
      ''Predictable revenue streams'' ''revenue'']"

definition costs :: "BusinessConcept list" where
  "costs =
   [mk_concept ''cost of goods sold''
      [''COGS'', ''direct costs'', ''variable costs'']
      [''cogs'', ''cost'', ''goods'', ''sold'', ''direct'']
      ''Direct costs of producing goods/services'' ''costs'',
    mk_concept ''operating expenses''
      [''OPEX'', ''operational costs'', ''overhead'']
      [''operating'', ''expenses'', ''opex'', ''overhead'']
      ''Costs of running business operations'' ''costs'',
    mk_concept ''marketing spend''
      [''marketing costs'', ''advertising expenses'', ''marketing investment'']
      [''marketing'', ''advertising'', ''promotion'', ''spend'']
      ''Investment in marketing and advertising'' ''costs'',
    mk_concept ''total expenses''
      [''total costs'', ''all expenses'', ''combined costs'']
      [''total'', ''expenses'', ''costs'', ''all'']
      ''Sum of all business expenses'' ''costs'']"

definition efficiency :: "BusinessConcept list" where
  "efficiency =
   [mk_concept ''asset turnover''
      [''asset efficiency'', ''asset utilization'']
      [''asset'', ''turnover'', ''efficiency'', ''utilization'']
      ''How efficiently assets generate revenue'' ''efficiency'',
    mk_concept ''inventory turnover''
      [''inventory efficiency'', ''stock turnover'']
      [''inventory'', ''turnover'', ''stock'', ''efficiency'']
      ''How quickly inventory is sold'' ''efficiency'',
    mk_concept ''working capital ratio''
      [''current ratio'', ''liquidity ratio'']
      [''working'', ''capital'', ''ratio'', ''liquidity'']
      ''Short-term financial health measure'' ''efficiency'',
    mk_concept ''productivity ratio''
      [''productivity measure'', ''efficiency ratio'']
      [''productivity'', ''efficiency'', ''output'', ''input'']
      ''Output relative to input measure'' ''efficiency'']"

definition growth :: "BusinessConcept list" where
  "growth =
   [mk_concept ''year over year growth''
      [''YoY growth'', ''annual growth'', ''yearly growth'']
      [''yoy'', ''year'', ''annual'', ''growth'']
      ''Growth compared to same period previous year'' ''growth'',
    mk_concept ''quarter over quarter growth''
      [''QoQ growth'', ''quarterly growth'']
      [''qoq'', ''quarter'', ''quarterly'', ''growth'']
      ''Growth compared to previous quarter'' ''growth'',
    mk_concept ''compound annual growth rate''
      [''CAGR'', ''compound growth'']
      [''cagr'', ''compound'', ''annual'', ''growth'']
      ''Average annual growth rate over multiple years'' ''growth'',
    mk_concept ''month over month growth''
      [''MoM growth'', ''monthly growth'']
      [''mom'', ''month'', ''monthly'', ''growth'']
      ''Growth compared to previous month'' ''growth'']"

definition financial_analysis :: "BusinessConcept list" where
  "financial_analysis =
   [mk_concept ''budget vs actual''
      [''budget variance'', ''actual vs budget'', ''variance analysis'']
      [''budget'', ''actual'', ''variance'', ''vs'', ''against'']
      ''Comparison of planned vs actual performance'' ''financial_analysis'',
    mk_concept ''forecast analysis''
      [''projection'', ''prediction'', ''forecast'']
      [''forecast'', ''projection'', ''prediction'', ''future'']
      ''Future performance predictions'' ''financial_analysis'',
    mk_concept ''trend analysis''
      [''time series'', ''historical analysis'']
      [''trend'', ''time'', ''series'', ''historical'']
      ''Analysis of patterns over time'' ''financial_analysis'']"

definition formulas :: "BusinessConcept list" where
  "formulas =
   [mk_concept ''percentage calculation''
      [''percent formula'', ''ratio as percentage'']
      [''percentage'', ''percent'', ''%'', ''ratio'']
      ''Calculations expressed as percentages'' ''formulas'',
    mk_concept ''average calculation''
      [''mean'', ''avg'', ''average formula'']
      [''average'', ''mean'', ''avg'']
      ''Average or mean calculations'' ''formulas'',
    mk_concept ''sum calculation''
      [''total'', ''sum formula'', ''addition'']
      [''sum'', ''total'', ''add'', ''addition'']
      ''Sum or total calculations'' ''formulas'',
    mk_concept ''conditional calculation''
      [''if formula'', ''conditional logic'']
      [''if'', ''conditional'', ''logic'', ''condition'']
      ''Calculations with conditional logic'' ''formulas'',
    mk_concept ''lookup formula''
      [''vlookup'', ''index match'', ''lookup'']
      [''vlookup'', ''lookup'', ''index'', ''match'']
      ''Data lookup and retrieval formulas'' ''formulas'']"

definition concepts :: "(string \<times> BusinessConcept list) list" where
  \<comment> \<open>\<^verbatim>\<open>_initialize_business_concepts\<close>: the dictionary from category to concepts, in
      insertion order\<close>
  "concepts =
   [(''profitability'', profitability), (''revenue'', revenue), (''costs'', costs),
    (''efficiency'', efficiency), (''growth'', growth),
    (''financial_analysis'', financial_analysis), (''formulas'', formulas)]"

definition catalog :: "BusinessConcept list" where
  \<comment> \<open>the concepts in the order in which
      \<^verbatim>\<open>for category, concept_list in self.concepts.items(): for concept in concept_list\<close>
      visits them\<close>
  "catalog = concat (map snd concepts)"

definition matches_concept :: "string \<Rightarrow> BusinessConcept \<Rightarrow> bool" where
  \<comment> \<open>\<^verbatim>\<open>_matches_concept\<close>; \<^verbatim>\<open>word in text\<close> is Python's substring test on strings\<close>
  "matches_concept text concept =
     (let all_terms = [name concept] @ synonyms concept @ key_words concept
      in list_ex (\<lambda>trm. list_all (\<lambda>word. str_in word text) (split (lower trm))) all_terms)"

definition identify_patterns :: "string \<Rightarrow> string list" where
  "identify_patterns text =
     (if re_ratio text \<or> str_in ''/'' text then [''ratio calculation''] else []) @
     (if str_in ''%'' text \<or> re_word ''percent'' text \<or> re_word ''ratio'' text
           \<or> re_word ''rate'' text
      then [''percentage calculation''] else []) @
     (if re_word ''yoy'' text \<or> re_word ''qoq'' text \<or> re_word ''mom'' text
           \<or> re_word ''growth'' text \<or> re_word ''increase'' text
      then [''growth metric''] else []) @
     (if re_word ''margin'' text \<or> re_profit_margin text
      then [''profitability metric''] else [])"

definition identify_formula_concepts :: "string \<Rightarrow> string list" where
  "identify_formula_concepts text =
     (let text_lower = lower text
      in if \<not> startswith text ''='' then []
         else
           (if str_in ''sum('' text_lower
            then [''sum calculation'', ''aggregation formula''] else []) @
           (if list_ex (\<lambda>func. str_in func text_lower) [''average('', ''avg('']
            then [''average calculation''] else []) @
           (if list_ex (\<lambda>func. str_in func text_lower)
                 [''if('', ''sumif('', ''countif('', ''averageif('']
            then [''conditional calculation''] else []) @
           (if list_ex (\<lambda>func. str_in func text_lower)
                 [''vlookup('', ''hlookup('', ''index('', ''match('', ''xlookup('']
            then [''lookup formula''] else []) @
           (if str_in ''/'' text
                 \<and> \<not> list_ex (\<lambda>func. str_in func text_lower) [''sum('', ''average('']
            then [''ratio calculation'', ''percentage calculation''] else []))"

definition identify_concepts :: "string \<Rightarrow> string list" where
  \<comment> \<open>\<^verbatim>\<open>BusinessConceptMapper.identify_concepts\<close>, the tagger\<close>
  "identify_concepts text =
     (let text_lower = lower text;
          identified = map name (filter (matches_concept text_lower) catalog)
      in dedup (identified @ identify_patterns text_lower @ identify_formula_concepts text))"

section \<open>The search engine (semantic_search.py)\<close>

text \<open>
  A grid scalar is empty, a string or a number. The field \<^verbatim>\<open>value\<close> of a cell is
  \<open>raw_value\<close> here. The sentence-transformer model, scikit-learn's cosine similarity and
  Python's \<^verbatim>\<open>str\<close> on a float are library code outside the repository: they are the
  three fields of \<open>externals\<close>, and \<open>'e\<close> is the type of an embedding vector.
\<close>

datatype cell_value = VNone | VStr string | VInt int | VFloat real

record 'e externals =
  encode :: "string \<Rightarrow> 'e"
  cosine_similarity :: "'e \<Rightarrow> 'e \<Rightarrow> real"
  float_str :: "real \<Rightarrow> string"

record 'e SpreadsheetCell =
  sheet_name :: string
  row :: nat
  col :: nat
  raw_value :: cell_value
  formula :: string
  header_context :: string
  business_concepts :: "string list"
  semantic_embedding :: "'e option"

text \<open>
  Of a \<^verbatim>\<open>SearchResult\<close> the fields \<^verbatim>\<open>location\<close>, \<^verbatim>\<open>formula\<close>, \<^verbatim>\<open>value\<close> and
  \<^verbatim>\<open>relevance_score\<close> are modelled. The fields \<^verbatim>\<open>concept_name\<close>, \<^verbatim>\<open>business_context\<close>
  and \<^verbatim>\<open>explanation\<close> are texts built from the first element of \<^verbatim>\<open>list(set(...))\<close> and
  from joined Python sets, whose order the source does not determine; they are left out.
\<close>

record SearchResult =
  location :: string
  result_formula :: "string option"
  result_value :: "string option"
  relevance_score :: real

record 'e SemanticSearchEngine =
  cells :: "'e SpreadsheetCell list"
  sheet_data :: "(string \<times> cell_value list list) list"
  concept_embeddings :: "(string \<times> 'e) list"

definition is_str :: "cell_value \<Rightarrow> bool" where
  "is_str v = (case v of VStr s \<Rightarrow> True | _ \<Rightarrow> False)"

definition is_number :: "cell_value \<Rightarrow> bool" where
  \<comment> \<open>\<^verbatim>\<open>isinstance(value, (int, float))\<close>\<close>
  "is_number v = (case v of VInt i \<Rightarrow> True | VFloat r \<Rightarrow> True | _ \<Rightarrow> False)"

definition number_gt :: "cell_value \<Rightarrow> real \<Rightarrow> bool" where
  "number_gt v bound = (case v of VInt i \<Rightarrow> real_of_int i > bound | VFloat r \<Rightarrow> r > bound | _ \<Rightarrow> False)"

definition truthy :: "cell_value \<Rightarrow> bool" where
  \<comment> \<open>the truth value of a scalar in \<^verbatim>\<open>if cell.value\<close>\<close>
  "truthy v = (case v of VNone \<Rightarrow> False | VStr s \<Rightarrow> s \<noteq> [] | VInt i \<Rightarrow> i \<noteq> 0 | VFloat r \<Rightarrow> r \<noteq> 0)"

definition str_value :: "'e externals \<Rightarrow> cell_value \<Rightarrow> string" where
  \<comment> \<open>\<^verbatim>\<open>str(value)\<close>\<close>
  "str_value ext v =
     (case v of VNone \<Rightarrow> ''None'' | VStr s \<Rightarrow> s | VInt i \<Rightarrow> str_int i | VFloat r \<Rightarrow> float_str ext r)"

definition concept_text :: "BusinessConcept \<Rightarrow> string" where
  "concept_text concept =
     name concept @ '' '' @ join '' '' (synonyms concept) @ '' '' @ description concept"

definition precompute_concept_embeddings :: "'e externals \<Rightarrow> (string \<times> 'e) list" where
  \<comment> \<open>the dictionary \<^verbatim>\<open>concept_embeddings\<close>, filled in catalog order\<close>
  "precompute_concept_embeddings ext =
     fold (\<lambda>concept embs. AList.update (name concept) (encode ext (concept_text concept)) embs)
       catalog []"

definition init :: "'e externals \<Rightarrow> 'e SemanticSearchEngine" where
  "init ext = \<lparr>cells = [], sheet_data = [], concept_embeddings = precompute_concept_embeddings ext\<rparr>"

subsection \<open>Indexing\<close>

definition analyze_formula_concepts :: "string \<Rightarrow> string \<Rightarrow> string list" where
  "analyze_formula_concepts frm header =
     (let formula_lower = lower frm; header_lower = lower header
      in (if list_ex (\<lambda>op. str_in op formula_lower) [''/'', ''divide'']
          then (if list_ex (\<lambda>trm. str_in trm header_lower)
                     [''margin'', ''ratio'', ''rate'', ''percentage'', ''%'']
                then ''ratio calculation'' #
                     (if str_in ''margin'' header_lower then [''profitability metric''] else [])
                else [])
          else []) @
         (if str_in ''sum('' formula_lower
          then ''aggregation formula'' #
               (if list_ex (\<lambda>trm. str_in trm header_lower) [''revenue'', ''sales'', ''income'']
                then [''revenue calculation'']
                else if list_ex (\<lambda>trm. str_in trm header_lower) [''cost'', ''expense'']
                then [''cost calculation'']
                else [])
          else []) @
         (if str_in ''average('' formula_lower \<or> str_in ''avg('' formula_lower
          then [''average calculation''] else []) @
         (if list_ex (\<lambda>func. str_in func formula_lower) [''if('', ''sumif('', ''countif('']
          then [''conditional calculation''] else []) @
         (if list_ex (\<lambda>func. str_in func formula_lower) [''vlookup('', ''index('', ''match('']
          then [''lookup formula''] else []))"

definition analyze_value_concepts :: "cell_value \<Rightarrow> string \<Rightarrow> string \<Rightarrow> string list" where
  "analyze_value_concepts v header context =
     (let header_lower = lower header; context_lower = lower context
      in (if (case v of VStr s \<Rightarrow> str_in ''%'' s | _ \<Rightarrow> False)
          then ''percentage value'' #
               (if list_ex (\<lambda>trm. str_in trm header_lower) [''margin'', ''growth'', ''rate'']
                then [''percentage calculation''] else [])
          else []) @
         (if is_number v \<and> number_gt v 1000
          then (if list_ex (\<lambda>trm. str_in trm context_lower)
                     [''revenue'', ''sales'', ''income'', ''profit'', ''cost'', ''expense'']
                then [''monetary value''] else [])
          else []))"

definition context_text :: "cell_value \<Rightarrow> string \<Rightarrow> string \<Rightarrow> string \<Rightarrow> string" where
  \<comment> \<open>the local \<^verbatim>\<open>context_text\<close> of \<^verbatim>\<open>_identify_concepts\<close>\<close>
  "context_text v frm header sheet =
     (let context_parts =
            (if header \<noteq> [] then [header] else []) @
            (case v of VStr s \<Rightarrow> [s] | _ \<Rightarrow> []) @
            (if frm \<noteq> [] then [frm] else []) @
            [sheet]
      in lower (join '' '' context_parts))"

definition engine_identify_concepts ::
  "cell_value \<Rightarrow> string \<Rightarrow> string \<Rightarrow> string \<Rightarrow> string list" where
  \<comment> \<open>\<^verbatim>\<open>SemanticSearchEngine._identify_concepts\<close>\<close>
  "engine_identify_concepts v frm header sheet =
     (let ctx = context_text v frm header sheet;
          identified_concepts = identify_concepts ctx;
          identified_concepts =
            identified_concepts @ (if frm \<noteq> [] then analyze_formula_concepts frm header else []);
          identified_concepts =
            identified_concepts @ (if is_number v then analyze_value_concepts v header ctx else [])
      in dedup identified_concepts)"

definition sheet_headers :: "cell_value list \<Rightarrow> (nat \<rightharpoonup> string)" where
  "sheet_headers row0 =
     fold (\<lambda>(col_idx, v) headers.
             case v of VStr s \<Rightarrow> if strip s \<noteq> [] then headers(col_idx \<mapsto> strip s) else headers
                     | _ \<Rightarrow> headers)
       (enumerate 0 row0) Map.empty"

definition is_blank :: "cell_value \<Rightarrow> bool" where
  \<comment> \<open>\<^verbatim>\<open>value is None or (isinstance(value, str) and not value.strip())\<close>\<close>
  "is_blank v = (case v of VNone \<Rightarrow> True | VStr s \<Rightarrow> strip s = [] | _ \<Rightarrow> False)"

definition process_cell ::
  "string \<Rightarrow> (nat \<rightharpoonup> string) \<Rightarrow> nat \<Rightarrow> nat \<Rightarrow> cell_value \<Rightarrow> 'e SpreadsheetCell list" where
  \<comment> \<open>the body of the inner loop of \<^verbatim>\<open>_process_sheet\<close>: the cells it appends\<close>
  "process_cell sheet headers row_idx col_idx v =
     (if is_blank v then []
      else
        let header = (case headers col_idx of Some h \<Rightarrow> h | None \<Rightarrow> []);
            frm = (case v of VStr s \<Rightarrow> if startswith s ''='' then s else [] | _ \<Rightarrow> []);
            tags = engine_identify_concepts v frm header sheet
        in [\<lparr>sheet_name = sheet, row = row_idx, col = col_idx, raw_value = v, formula = frm,
              header_context = header, business_concepts = tags, semantic_embedding = None\<rparr>])"

definition process_sheet :: "string \<Rightarrow> cell_value list list \<Rightarrow> 'e SpreadsheetCell list" where
  "process_sheet sheet data =
     (if data = [] then []
      else
        let headers = sheet_headers (hd data)
        in concat (map (\<lambda>(row_idx, r).
                     concat (map (\<lambda>(col_idx, v). process_cell sheet headers row_idx col_idx v)
                               (enumerate 0 r)))
                  (enumerate 0 data)))"

definition rich_text :: "'e externals \<Rightarrow> 'e SpreadsheetCell \<Rightarrow> string" where
  "rich_text ext cell =
     (let text_parts =
            (if header_context cell \<noteq> [] then [header_context cell] else []) @
            [str_value ext (raw_value cell)] @
            (if formula cell \<noteq> [] then [formula cell] else []) @
            business_concepts cell @
            [sheet_name cell]
      in join '' '' text_parts)"

definition compute_cell_embeddings ::
  "'e externals \<Rightarrow> 'e SpreadsheetCell list \<Rightarrow> 'e SpreadsheetCell list" where
  "compute_cell_embeddings ext cs =
     map (\<lambda>cell. cell\<lparr>semantic_embedding := Some (encode ext (rich_text ext cell))\<rparr>) cs"

definition load_spreadsheet_data ::
  "'e externals \<Rightarrow> 'e SemanticSearchEngine \<Rightarrow> (string \<times> cell_value list list) list
     \<Rightarrow> 'e SemanticSearchEngine" where
  "load_spreadsheet_data ext eng sheets =
     eng\<lparr>sheet_data := sheets,
         cells := compute_cell_embeddings ext
                    (concat (map (\<lambda>(sheet, data). process_sheet sheet data) sheets))\<rparr>"

subsection \<open>Searching\<close>

definition process_query :: "'e externals \<Rightarrow> 'e SemanticSearchEngine \<Rightarrow> string \<Rightarrow> string" where
  "process_query ext eng query =
     (let expanded_terms =
            [query] @
            map fst (filter (\<lambda>(concept_name, embedding).
                               cosine_similarity ext (encode ext query) embedding > 0.3)
                       (concept_embeddings eng))
      in join '' '' expanded_terms)"

definition max_list :: "real list \<Rightarrow> real" where
  \<comment> \<open>\<^verbatim>\<open>max(xs)\<close> on a non-empty list\<close>
  "max_list xs = fold max (tl xs) (hd xs)"

definition tag_scores :: "string \<Rightarrow> string \<Rightarrow> real list" where
  \<comment> \<open>what one round of \<^verbatim>\<open>for concept in cell_concepts\<close> appends to
      \<^verbatim>\<open>relevance_scores\<close>; \<^verbatim>\<open>in\<close> is the substring test in both branches\<close>
  "tag_scores query_lower concept =
     (let concept_lower = lower concept
      in if str_in concept_lower query_lower then [1.0]
         else if list_ex (\<lambda>word. str_in word query_lower) (split concept_lower) then [0.7]
         else [])"

definition calculate_concept_relevance :: "string \<Rightarrow> string list \<Rightarrow> real" where
  "calculate_concept_relevance query cell_concepts =
     (if cell_concepts = [] then 0.0
      else
        let query_lower = lower query;
            relevance_scores = concat (map (tag_scores query_lower) cell_concepts);
            query_concepts = identify_concepts query_lower;
            common_concepts = set cell_concepts \<inter> set query_concepts;
            relevance_scores = relevance_scores @ (if common_concepts \<noteq> {} then [0.8] else [])
        in if relevance_scores \<noteq> [] then max_list relevance_scores else 0.0)"

definition calculate_contextual_relevance :: "string \<Rightarrow> 'e SpreadsheetCell \<Rightarrow> real" where
  "calculate_contextual_relevance query cell =
     (let relevance = 0.0;
          query_lower = lower query;
          relevance =
            (if header_context cell \<noteq> []
             then
               let header_words = split (lower (header_context cell));
                   query_words = split query_lower;
                   common_words = set header_words \<inter> set query_words
               in if common_words \<noteq> {}
                  then relevance + 0.3 * (real (card common_words) / real (length query_words))
                  else relevance
             else relevance);
          sheet_words = split (lower (sheet_name cell));
          query_words = split query_lower;
          common_words = set sheet_words \<inter> set query_words;
          relevance =
            (if common_words \<noteq> {}
             then relevance + 0.2 * (real (card common_words) / real (length query_words))
             else relevance)
      in min relevance 1.0)"

function column_loop :: "int \<Rightarrow> string \<Rightarrow> string" where
  \<comment> \<open>the \<^verbatim>\<open>while col_num > 0\<close> loop of \<^verbatim>\<open>_get_excel_cell_reference\<close>\<close>
  "column_loop col_num col_letter =
     (if col_num > 0
      then (let col_num1 = col_num - 1;
                col_letter1 = char_of (col_num1 mod 26 + of_char CHR ''A'') # col_letter
            in column_loop (col_num1 div 26) col_letter1)
      else col_letter)"
  by pat_completeness auto
termination
  by (relation "measure (\<lambda>(n, s). nat n)") auto

declare column_loop.simps [simp del]

definition column_letters :: "int \<Rightarrow> string" where
  \<comment> \<open>the value of \<^verbatim>\<open>col_letter\<close> when the loop ends\<close>
  "column_letters c = column_loop (c + 1) []"

definition get_excel_cell_reference :: "int \<Rightarrow> int \<Rightarrow> string" where
  "get_excel_cell_reference r c = column_letters c @ str_int (r + 1)"

definition search_body ::
  "'e externals \<Rightarrow> string \<Rightarrow> 'e \<Rightarrow> 'e SpreadsheetCell \<Rightarrow> SearchResult list \<Rightarrow> SearchResult list" where
  \<comment> \<open>one round of the loop over \<^verbatim>\<open>self.cells\<close> in \<^verbatim>\<open>search\<close>. The sum and the
      comparison with 0.1 are those of the source, on reals instead of floats.\<close>
  "search_body ext query query_embedding cell results =
     (case semantic_embedding cell of
        None \<Rightarrow> results
      | Some embedding \<Rightarrow>
          let similarity = cosine_similarity ext query_embedding embedding;
              concept_relevance = calculate_concept_relevance query (business_concepts cell);
              contextual_relevance = calculate_contextual_relevance query cell;
              final_score = (similarity * 0.4) + (concept_relevance * 0.4)
                              + (contextual_relevance * 0.2)
          in if final_score > 0.1
             then results @
                  [\<lparr>location = [CHR 0x27] @ sheet_name cell @ [CHR 0x27, CHR ''!''] @
                                get_excel_cell_reference (int (row cell)) (int (col cell)),
                    result_formula = (if formula cell \<noteq> [] then Some (formula cell) else None),
                    result_value = (if truthy (raw_value cell)
                                    then Some (str_value ext (raw_value cell)) else None),
                    relevance_score = final_score\<rparr>]
             else results)"

definition slice_to :: "'a list \<Rightarrow> int \<Rightarrow> 'a list" where
  \<comment> \<open>\<^verbatim>\<open>xs[:n]\<close>: a negative bound counts from the end\<close>
  "slice_to xs n = (if n < 0 then take (nat (int (length xs) + n)) xs else take (nat n) xs)"

definition scored_results ::
  "'e externals \<Rightarrow> 'e SemanticSearchEngine \<Rightarrow> string \<Rightarrow> SearchResult list" where
  \<comment> \<open>the list \<^verbatim>\<open>results\<close> of \<^verbatim>\<open>search\<close> when the loop over the cells ends, before it
      is sorted\<close>
  "scored_results ext eng query =
     (let processed_query = process_query ext eng query;
          query_embedding = encode ext processed_query
      in fold (search_body ext query query_embedding) (cells eng) [])"

definition search ::
  "'e externals \<Rightarrow> 'e SemanticSearchEngine \<Rightarrow> string \<Rightarrow> int \<Rightarrow> SearchResult list" where
  \<comment> \<open>\<^verbatim>\<open>results.sort(key=..., reverse=True)\<close> is Python's stable sort, which keeps
      the order of entries with equal keys also when reversed: the stable \<open>sort_key\<close> on
      the negated score\<close>
  "search ext eng query max_results =
     (if cells eng = [] then []
      else
        let results = scored_results ext eng query;
            results = sort_key (\<lambda>x. - relevance_score x) results
        in slice_to results max_results)"

section \<open>Notions of the specification\<close>

text \<open>
  The definitions of this section are not translations of source code. They write down
  what the specification says, in its own words, for comparison with the code.
\<close>

definition is_upper :: "char \<Rightarrow> bool" where
  \<comment> \<open>one of the letters A to Z\<close>
  "is_upper c = ((of_char CHR ''A'' :: int) \<le> of_char c \<and> (of_char c :: int) \<le> of_char CHR ''Z'')"

definition letter_value :: "char \<Rightarrow> int" where
  \<comment> \<open>A = 1, ..., Z = 26\<close>
  "letter_value c = of_char c - of_char CHR ''A'' + 1"

definition bijective26 :: "string \<Rightarrow> int" where
  \<comment> \<open>the number that a string of letters denotes in bijective base 26, most significant
      letter first\<close>
  "bijective26 s = foldl (\<lambda>acc c. acc * 26 + letter_value c) 0 s"

definition decode_column :: "string \<Rightarrow> int" where
  \<comment> \<open>the 0-based column index that column letters denote\<close>
  "decode_column s = bijective26 s - 1"

definition spec_concept_score :: "string \<Rightarrow> string list \<Rightarrow> real" where
  \<comment> \<open>the concept score as the specification words it: a tag verbatim in the lower-cased
      query; a word of a tag among the words of the query; a tag among the tagger's tags of
      the raw query\<close>
  "spec_concept_score query tags =
     (if tags = [] then 0
      else
        let query_lower = lower query;
            rules =
              (if list_ex (\<lambda>tag. str_in tag query_lower) tags then [1.0] else []) @
              (if list_ex (\<lambda>tag. list_ex (\<lambda>word. word \<in> set (split query_lower)) (split tag)) tags
               then [0.7] else []) @
              (if set (identify_concepts query) \<inter> set tags \<noteq> {} then [0.8] else [])
        in if rules \<noteq> [] then max_list rules else 0)"

definition spec_word_match :: "string \<Rightarrow> BusinessConcept \<Rightarrow> bool" where
  \<comment> \<open>word containment: some term of the concept has all of its words among the words of
      the lower-cased text\<close>
  "spec_word_match text concept =
     list_ex (\<lambda>trm. list_all (\<lambda>word. word \<in> set (split (lower text))) (split (lower trm)))
       ([name concept] @ synonyms concept @ key_words concept)"

definition spec_context_text :: "'e externals \<Rightarrow> cell_value \<Rightarrow> string \<Rightarrow> string \<Rightarrow> string \<Rightarrow> string" where
  \<comment> \<open>the context string as the specification words it: the value is stringified whatever
      its type. Empty parts are left out and the text is lower-cased, as in the code.\<close>
  "spec_context_text ext v frm header sheet =
     lower (join '' '' ((if header \<noteq> [] then [header] else []) @
                        [str_value ext v] @
                        (if frm \<noteq> [] then [frm] else []) @
                        [sheet]))"

section \<open>A small workbook\<close>

text \<open>
  Concrete inputs for the examples below: library functions that embed a text as itself
  and give every pair of embeddings the same cosine similarity \<open>s\<close>, and a workbook of
  one sheet \<open>Costs\<close> whose only row holds the numbers 0 and 7.
\<close>

definition const_externals :: "real \<Rightarrow> string externals" where
  "const_externals s =
     \<lparr>encode = (\<lambda>t. t), cosine_similarity = (\<lambda>a b. s), float_str = (\<lambda>r. ''0.0'')\<rparr>"

definition demo_sheets :: "(string \<times> cell_value list list) list" where
  "demo_sheets = [(''Costs'', [[VInt 0, VInt 7]])]"

definition demo_engine :: "real \<Rightarrow> string SemanticSearchEngine" where
  "demo_engine s = load_spreadsheet_data (const_externals s) (init (const_externals s)) demo_sheets"

definition demo_cell :: "nat \<Rightarrow> int \<Rightarrow> string SpreadsheetCell" where
  \<comment> \<open>the cell that indexing the workbook yields for the number \<open>i\<close> in column \<open>c\<close>\<close>
  "demo_cell c i =
     \<lparr>sheet_name = ''Costs'', row = 0, col = c, raw_value = VInt i, formula = [],
      header_context = [], business_concepts = [''cost of goods sold'', ''total expenses''],
      semantic_embedding = Some (str_int i @ '' cost of goods sold total expenses Costs'')\<rparr>"

definition demo_result :: "string \<Rightarrow> string option \<Rightarrow> real \<Rightarrow> SearchResult" where
  \<comment> \<open>the result for the cell at address \<open>a\<close> of the sheet, with value field \<open>v\<close>, under
      cosine similarity \<open>s\<close> and the query \<open>costs\<close>\<close>
  "demo_result a v s =
     \<lparr>location = CHR 0x27 # ''Costs'' @ CHR 0x27 # CHR ''!'' # a, result_formula = None,
      result_value = v, relevance_score = s * 0.4 + 0.8 * 0.4 + 0.2 * 0.2\<rparr>"

section \<open>The cell address\<close>

lemma column_loop_step:
  "n > 0 \<Longrightarrow> column_loop n acc =
     column_loop ((n - 1) div 26) (char_of ((n - 1) mod 26 + of_char CHR ''A'') # acc)"
  by (subst column_loop.simps) (simp add: Let_def)

lemma column_loop_stop: "\<not> n > 0 \<Longrightarrow> column_loop n acc = acc"
  by (subst column_loop.simps) simp

lemma column_loop_acc: "column_loop n acc = column_loop n [] @ acc"
proof (induction "nat n" arbitrary: n acc rule: less_induct)
  case less
  show ?case
  proof (cases "n > 0")
    case True
    let ?c = "char_of ((n - 1) mod 26 + of_char CHR ''A'') :: char"
    let ?m = "(n - 1) div 26"
    have smaller: "nat ?m < nat n" using True by auto
    have "column_loop n acc = column_loop ?m (?c # acc)"
      using True by (rule column_loop_step)
    also have "\<dots> = column_loop ?m [] @ (?c # acc)"
      using less.hyps [OF smaller] .
    also have "\<dots> = (column_loop ?m [] @ [?c]) @ acc"
      by simp
    also have "column_loop ?m [] @ [?c] = column_loop ?m [?c]"
      using less.hyps [OF smaller, of "[?c]"] by simp
    also have "column_loop ?m [?c] = column_loop n []"
      using True by (simp only: column_loop_step [of n "[]"])
    finally show ?thesis .
  next
    case False
    then show ?thesis by (simp add: column_loop_stop)
  qed
qed

lemma bijective26_snoc: "bijective26 (s @ [c]) = bijective26 s * 26 + letter_value c"
  by (simp add: bijective26_def)

lemma letter_value_chr:
  "0 \<le> m \<Longrightarrow> m < 26 \<Longrightarrow> letter_value (char_of (m + of_char CHR ''A'')) = m + 1"
  by (simp add: letter_value_def)

lemma is_upper_chr:
  "0 \<le> m \<Longrightarrow> m < 26 \<Longrightarrow> is_upper (char_of ((m::int) + of_char CHR ''A''))"
  by (simp add: is_upper_def)

lemma bijective26_column_loop: "0 \<le> n \<Longrightarrow> bijective26 (column_loop n []) = n"
proof (induction "nat n" arbitrary: n rule: less_induct)
  case less
  show ?case
  proof (cases "n > 0")
    case True
    let ?c = "char_of ((n - 1) mod 26 + of_char CHR ''A'') :: char"
    let ?m = "(n - 1) div 26"
    have smaller: "nat ?m < nat n" using True by auto
    have nonneg: "0 \<le> ?m" using True by simp
    have "column_loop n [] = column_loop ?m [?c]"
      using True by (rule column_loop_step)
    also have "\<dots> = column_loop ?m [] @ [?c]"
      by (rule column_loop_acc)
    finally have "bijective26 (column_loop n []) =
        bijective26 (column_loop ?m []) * 26 + letter_value ?c"
      by (simp only: bijective26_snoc)
    also have "bijective26 (column_loop ?m []) = ?m"
      using less.hyps [OF smaller nonneg] .
    also have "letter_value ?c = (n - 1) mod 26 + 1"
      by (rule letter_value_chr) simp_all
    finally show ?thesis by simp
  next
    case False
    with less.prems have "n = 0" by simp
    then show ?thesis by (simp add: bijective26_def column_loop_stop)
  qed
qed

lemma upper_column_loop:
  "\<forall>c\<in>set acc. is_upper c \<Longrightarrow> \<forall>c\<in>set (column_loop n acc). is_upper c"
proof (induction n acc rule: column_loop.induct)
  case (1 n acc)
  show ?case
  proof (cases "n > 0")
    case True
    let ?c = "char_of ((n - 1) mod 26 + of_char CHR ''A'') :: char"
    have "is_upper ?c" by (rule is_upper_chr) simp_all
    with "1.prems" have "\<forall>c\<in>set (?c # acc). is_upper c" by simp
    from "1.IH" [OF True refl refl this] show ?thesis
      using True by (simp only: column_loop_step [OF True])
  next
    case False
    with "1.prems" show ?thesis by (simp add: column_loop_stop)
  qed
qed

lemma upper_column_letters: "\<forall>c\<in>set (column_letters n). is_upper c"
  unfolding column_letters_def by (rule upper_column_loop) simp

lemma digits_not_upper: "\<forall>c\<in>set (digits n). \<not> is_upper c"
proof (induction n rule: digits.induct)
  case (1 n)
  have d: "\<not> is_upper (char_of (48 + d))" if "d < 10" for d :: nat
  proof -
    have "(of_char (char_of (48 + d) :: char) :: int) = int (of_char (char_of (48 + d) :: char))"
      by (simp only: of_nat_of_char)
    also have "\<dots> = int (48 + d)" using that by simp
    finally show ?thesis using that by (simp add: is_upper_def)
  qed
  show ?case
  proof (cases "n < 10")
    case True
    then show ?thesis using d [of n] by (subst digits.simps) simp
  next
    case False
    have "n mod 10 < 10" by simp
    from d [OF this] "1.IH" [OF False] False show ?thesis
      by (subst digits.simps) simp
  qed
qed

lemma str_int_not_upper: "\<forall>c\<in>set (str_int i). \<not> is_upper c"
  using digits_not_upper by (simp add: str_int_def is_upper_def)

lemma letters_of_reference:
  "takeWhile is_upper (get_excel_cell_reference r c) = column_letters c"
proof -
  have "takeWhile is_upper (str_int (r + 1)) = []"
    using str_int_not_upper [of "r + 1"] by (cases "str_int (r + 1)") simp_all
  then show ?thesis
    using upper_column_letters [of c]
    by (simp add: get_excel_cell_reference_def takeWhile_append2)
qed

text \<open>
  C6. The cell address of (row, col) is the column letters of col followed by the decimal
  numeral of row + 1. For a 0-based col the column letters are the bijective base-26
  numeral of col + 1: every letter is one of A to Z, and read with A = 1, ..., Z = 26 the
  letters denote col + 1. In particular (0,0) gives A1, (0,25) gives Z1, (0,26) gives AA1,
  (4,27) gives AB5, col 701 gives the letters ZZ and col 702 gives AAA.
\<close>

theorem excel_reference_bijective_base26:
  assumes "0 \<le> c"
  shows "get_excel_cell_reference r c = column_letters c @ str_int (r + 1)
       \<and> (\<forall>x\<in>set (column_letters c). is_upper x)
       \<and> bijective26 (column_letters c) = c + 1
       \<and> get_excel_cell_reference 0 0 = ''A1''
       \<and> get_excel_cell_reference 0 25 = ''Z1''
       \<and> get_excel_cell_reference 0 26 = ''AA1''
       \<and> get_excel_cell_reference 4 27 = ''AB5''
       \<and> column_letters 701 = ''ZZ''
       \<and> column_letters 702 = ''AAA''"
proof -
  have general: "bijective26 (column_letters c) = c + 1"
    unfolding column_letters_def using assms by (intro bijective26_column_loop) simp
  have e1: "get_excel_cell_reference 0 0 = ''A1''" by code_simp
  have e2: "get_excel_cell_reference 0 25 = ''Z1''" by code_simp
  have e3: "get_excel_cell_reference 0 26 = ''AA1''" by code_simp
  have e4: "get_excel_cell_reference 4 27 = ''AB5''" by code_simp
  have e5: "column_letters 701 = ''ZZ''" by code_simp
  have e6: "column_letters 702 = ''AAA''" by code_simp
  show ?thesis
    using general upper_column_letters [of c] e1 e2 e3 e4 e5 e6
    by (simp add: get_excel_cell_reference_def)
qed

theorem excel_reference_bijective_base26_witness:
  "(0::int) \<le> 27 \<and> get_excel_cell_reference 4 27 = column_letters 27 @ str_int 5
     \<and> bijective26 (column_letters 27) = 28"
  using excel_reference_bijective_base26 [of 27 4] by simp

text \<open>
  C7. For every col from 0 to 1000, the letters at the front of the cell address, read as
  a bijective base-26 numeral and converted back to a 0-based index, are col again. (The
  upper bound is not needed: the lemmas above hold for every col from 0 on.)
\<close>

theorem column_letters_round_trip:
  assumes "0 \<le> c" and "c \<le> 1000"
  shows "decode_column (takeWhile is_upper (get_excel_cell_reference r c)) = c"
proof -
  have "bijective26 (column_letters c) = c + 1"
    unfolding column_letters_def using assms(1) by (intro bijective26_column_loop) simp
  then show ?thesis
    by (simp add: letters_of_reference decode_column_def)
qed

theorem column_letters_round_trip_witness:
  "(0::int) \<le> 701 \<and> (701::int) \<le> 1000
     \<and> decode_column (takeWhile is_upper (get_excel_cell_reference 6 701)) = 701"
  using column_letters_round_trip [of 701 6] by simp

section \<open>The ranking loop\<close>

lemma search_body_append:
  "search_body ext q qe cell acc = acc @ search_body ext q qe cell []"
  by (simp add: search_body_def Let_def split: option.split)

lemma fold_search_body:
  "fold (search_body ext q qe) cs acc = acc @ concat (map (\<lambda>c. search_body ext q qe c []) cs)"
proof (induction cs arbitrary: acc)
  case Nil
  show ?case by simp
next
  case (Cons c cs)
  have "fold (search_body ext q qe) (c # cs) acc = fold (search_body ext q qe) cs (search_body ext q qe c acc)"
    by simp
  also have "\<dots> = search_body ext q qe c acc @ concat (map (\<lambda>c. search_body ext q qe c []) cs)"
    by (rule Cons.IH)
  also have "search_body ext q qe c acc = acc @ search_body ext q qe c []"
    by (rule search_body_append)
  finally show ?case by simp
qed

lemma scored_results_concat:
  "scored_results ext eng q =
     concat (map (\<lambda>c. search_body ext q (encode ext (process_query ext eng q)) c []) (cells eng))"
  by (simp add: scored_results_def Let_def fold_search_body)

lemma search_body_cases:
  "search_body ext q qe cell [] = [] \<or>
   (\<exists>emb. semantic_embedding cell = Some emb \<and>
      search_body ext q qe cell [] =
        [\<lparr>location = [CHR 0x27] @ sheet_name cell @ [CHR 0x27, CHR ''!''] @
                       get_excel_cell_reference (int (row cell)) (int (col cell)),
          result_formula = (if formula cell \<noteq> [] then Some (formula cell) else None),
          result_value = (if truthy (raw_value cell)
                          then Some (str_value ext (raw_value cell)) else None),
          relevance_score = cosine_similarity ext qe emb * 0.4
             + calculate_concept_relevance q (business_concepts cell) * 0.4
             + calculate_contextual_relevance q cell * 0.2\<rparr>] \<and>
      cosine_similarity ext qe emb * 0.4
             + calculate_concept_relevance q (business_concepts cell) * 0.4
             + calculate_contextual_relevance q cell * 0.2 > 0.1)"
  by (cases "semantic_embedding cell") (simp_all add: search_body_def Let_def)

lemma slice_to_prefix: "prefix (slice_to xs n) xs"
  by (simp add: slice_to_def take_is_prefix)

lemma set_slice_to: "set (slice_to xs n) \<subseteq> set xs"
  by (simp add: slice_to_def set_take_subset)

lemma set_search: "set (search ext eng q n) \<subseteq> set (scored_results ext eng q)"
proof (cases "cells eng = []")
  case True
  then show ?thesis by (simp add: search_def)
next
  case False
  then show ?thesis
    using set_slice_to [of "sort_key (\<lambda>x. - relevance_score x) (scored_results ext eng q)" n]
    by (simp add: search_def Let_def)
qed

lemma search_result_origin:
  assumes "r \<in> set (search ext eng q n)"
  shows "\<exists>cell\<in>set (cells eng). search_body ext q (encode ext (process_query ext eng q)) cell [] = [r]"
proof -
  let ?qe = "encode ext (process_query ext eng q)"
  from assms set_search have "r \<in> set (scored_results ext eng q)" by blast
  then obtain cell where c: "cell \<in> set (cells eng)" and r: "r \<in> set (search_body ext q ?qe cell [])"
    by (auto simp: scored_results_concat)
  from search_body_cases [of ext q ?qe cell] r have "search_body ext q ?qe cell [] = [r]"
    by auto
  with c show ?thesis by blast
qed

lemma sorted_desc_search:
  "sorted_wrt (\<lambda>a b. relevance_score a \<ge> relevance_score b) (search ext eng query n)"
proof -
  let ?f = "\<lambda>x. - relevance_score x"
  have s: "sorted (map ?f (sort_key ?f xs))" for xs :: "SearchResult list"
    by (rule sorted_sort_key)
  have p: "prefix (search ext eng query n) (sort_key ?f (scored_results ext eng query)) \<or> search ext eng query n = []"
    by (simp add: search_def Let_def slice_to_prefix)
  then show ?thesis
  proof
    assume "prefix (search ext eng query n) (sort_key ?f (scored_results ext eng query))"
    then obtain zs where "sort_key ?f (scored_results ext eng query) = search ext eng query n @ zs"
      by (auto simp: prefix_def)
    with s [of "scored_results ext eng query"] have "sorted (map ?f (search ext eng query n))"
      by (simp add: sorted_append)
    then show ?thesis by (simp add: sorted_wrt_map)
  next
    assume "search ext eng query n = []"
    then show ?thesis by simp
  qed
qed

lemma stable_search:
  "prefix (filter (\<lambda>r. relevance_score r = k) (search ext eng query n))
          (filter (\<lambda>r. relevance_score r = k) (scored_results ext eng query))"
proof (cases "cells eng = []")
  case True
  then show ?thesis by (simp add: search_def)
next
  case False
  let ?f = "\<lambda>x. - relevance_score x"
  have "prefix (search ext eng query n) (sort_key ?f (scored_results ext eng query))"
    using False by (simp add: search_def Let_def slice_to_prefix)
  then have "prefix (filter (\<lambda>r. relevance_score r = k) (search ext eng query n))
                    (filter (\<lambda>r. relevance_score r = k)
                       (sort_key ?f (scored_results ext eng query)))"
    by (rule filter_mono_prefix)
  moreover have "filter (\<lambda>r. relevance_score r = k) (sort_key ?f (scored_results ext eng query))
                 = filter (\<lambda>r. relevance_score r = k) (scored_results ext eng query)"
    using sort_key_stable [of ?f "- k" "scored_results ext eng query"] by simp
  ultimately show ?thesis by simp
qed

lemma length_search: "0 \<le> n \<Longrightarrow> int (length (search ext eng query n)) \<le> n"
proof -
  assume n: "0 \<le> n"
  have "length (take (nat n) xs) \<le> nat n" for xs :: "SearchResult list"
    by simp
  then have "int (length (slice_to xs n)) \<le> n" for xs :: "SearchResult list"
    using n by (simp add: slice_to_def)
  then show ?thesis
    using n by (simp add: search_def Let_def)
qed

section \<open>The concept score and the context score\<close>

lemma max_list_Max: "xs \<noteq> [] \<Longrightarrow> max_list xs = Max (set xs)"
proof (cases xs)
  case Nil
  moreover assume "xs \<noteq> []"
  ultimately show ?thesis by simp
next
  case (Cons a list)
  have "Max (set (a # list)) = fold max list a" by (rule Max.set_eq_fold)
  with Cons show ?thesis by (simp only: max_list_def list.sel)
qed

lemma max_list_eqI: "x \<in> set xs \<Longrightarrow> set xs \<subseteq> S \<Longrightarrow> \<forall>y\<in>S. y \<le> x \<Longrightarrow> max_list xs = x"
proof -
  assume x: "x \<in> set xs" and S: "set xs \<subseteq> S" and le: "\<forall>y\<in>S. y \<le> x"
  from x have ne: "xs \<noteq> []" by auto
  have "Max (set xs) = x"
    using x S le by (intro Max_eqI) auto
  with max_list_Max [OF ne] show ?thesis by simp
qed

lemma concept_relevance_unfold:
  "calculate_concept_relevance query tags =
     (if tags = [] then 0
      else let scores = concat (map (tag_scores (lower query)) tags) @
                        (if set tags \<inter> set (identify_concepts (lower query)) \<noteq> {} then [0.8] else [])
           in if scores \<noteq> [] then max_list scores else 0)"
  by (simp add: calculate_concept_relevance_def Let_def)

lemma one_in_tag_scores:
  "1 \<in> set (concat (map (tag_scores q) tags)) \<longleftrightarrow> list_ex (\<lambda>tag. str_in (lower tag) q) tags"
  by (induction tags) (auto simp: tag_scores_def Let_def)

lemma seven_in_tag_scores:
  "\<not> list_ex (\<lambda>tag. str_in (lower tag) q) tags \<Longrightarrow>
   0.7 \<in> set (concat (map (tag_scores q) tags)) \<longleftrightarrow>
     list_ex (\<lambda>tag. list_ex (\<lambda>word. str_in word q) (split (lower tag))) tags"
  by (induction tags) (auto simp: tag_scores_def Let_def)

lemma tag_scores_range: "set (concat (map (tag_scores q) tags)) \<subseteq> {1, 0.7}"
  by (induction tags) (auto simp: tag_scores_def Let_def)

lemma concept_relevance_chain:
  "calculate_concept_relevance query tags =
     (if tags = [] then 0
      else if list_ex (\<lambda>tag. str_in (lower tag) (lower query)) tags then 1
      else if set tags \<inter> set (identify_concepts (lower query)) \<noteq> {} then 0.8
      else if list_ex (\<lambda>tag. list_ex (\<lambda>word. str_in word (lower query)) (split (lower tag))) tags
           then 0.7
      else 0)"
proof (cases "tags = []")
  case True
  then show ?thesis by (simp add: calculate_concept_relevance_def)
next
  case False
  let ?q = "lower query"
  let ?C = "set tags \<inter> set (identify_concepts ?q) \<noteq> {}"
  let ?A = "list_ex (\<lambda>tag. str_in (lower tag) ?q) tags"
  let ?B = "list_ex (\<lambda>tag. list_ex (\<lambda>word. str_in word ?q) (split (lower tag))) tags"
  define scores where
    "scores = concat (map (tag_scores ?q) tags) @ (if ?C then [0.8] else [])"
  have unfold: "calculate_concept_relevance query tags =
                  (if scores \<noteq> [] then max_list scores else 0)"
    using False by (simp add: concept_relevance_unfold Let_def scores_def)
  have range: "set scores \<subseteq> {1, 0.7, 0.8}"
    using tag_scores_range [of ?q tags] by (auto simp: scores_def)
  have one: "1 \<in> set scores \<longleftrightarrow> ?A"
    using one_in_tag_scores [of ?q tags] by (auto simp: scores_def)
  have eight: "0.8 \<in> set scores \<longleftrightarrow> ?C"
    using tag_scores_range [of ?q tags] by (auto simp: scores_def)
  have seven: "0.7 \<in> set scores \<longleftrightarrow> ?B" if "\<not> ?A"
    using seven_in_tag_scores [OF that] by (auto simp: scores_def)
  consider (a) ?A | (c) "\<not> ?A" ?C | (b) "\<not> ?A" "\<not> ?C" ?B | (n) "\<not> ?A" "\<not> ?C" "\<not> ?B"
    by blast
  then show ?thesis
  proof cases
    case a
    with one have m: "1 \<in> set scores" by simp
    then have ne: "scores \<noteq> []" by auto
    have "max_list scores = 1"
      using m range by (rule max_list_eqI) simp
    with ne a False unfold show ?thesis by simp
  next
    case c
    with eight have m: "0.8 \<in> set scores" by simp
    then have ne: "scores \<noteq> []" by auto
    from c one have "1 \<notin> set scores" by simp
    with range have "set scores \<subseteq> {0.7, 0.8}" by auto
    with m have "max_list scores = 0.8"
      by (rule max_list_eqI) simp
    with ne c False unfold show ?thesis by simp
  next
    case b
    with seven have m: "0.7 \<in> set scores" by simp
    then have ne: "scores \<noteq> []" by auto
    from b one eight have "1 \<notin> set scores" "0.8 \<notin> set scores" by simp_all
    with range have "set scores \<subseteq> {0.7}" by auto
    with m have "max_list scores = 0.7"
      by (rule max_list_eqI) simp
    with ne b False unfold show ?thesis by simp
  next
    case n
    with one eight seven have "1 \<notin> set scores" "0.8 \<notin> set scores" "0.7 \<notin> set scores"
      by simp_all
    with range have "scores = []" by (cases scores) auto
    with n False unfold show ?thesis by simp
  qed
qed

lemma concept_relevance_range:
  "0 \<le> calculate_concept_relevance query tags \<and> calculate_concept_relevance query tags \<le> 1"
  by (simp add: concept_relevance_chain)

lemma overlap_ratio:
  "0 \<le> real (card (set a \<inter> set b)) / real (length b) \<and>
   real (card (set a \<inter> set b)) / real (length b) \<le> 1"
proof -
  have "card (set a \<inter> set b) \<le> card (set b)"
    by (intro card_mono) auto
  also have "\<dots> \<le> length b" by (rule card_length)
  finally have "real (card (set a \<inter> set b)) \<le> real (length b)" by simp
  then show ?thesis by (simp add: divide_le_eq_1)
qed

lemma contextual_relevance_unfold:
  "calculate_contextual_relevance query cell =
     min ((if header_context cell \<noteq> [] \<and>
              set (split (lower (header_context cell))) \<inter> set (split (lower query)) \<noteq> {}
           then 0.3 * (real (card (set (split (lower (header_context cell)))
                                     \<inter> set (split (lower query))))
                         / real (length (split (lower query))))
           else 0)
          + (if set (split (lower (sheet_name cell))) \<inter> set (split (lower query)) \<noteq> {}
             then 0.2 * (real (card (set (split (lower (sheet_name cell)))
                                       \<inter> set (split (lower query))))
                           / real (length (split (lower query))))
             else 0)) 1"
  by (simp add: calculate_contextual_relevance_def Let_def)

lemma contextual_relevance_range:
  "0 \<le> calculate_contextual_relevance query cell \<and>
   calculate_contextual_relevance query cell \<le> 1 / 2"
proof -
  let ?q = "split (lower query)"
  define h where
    "h = real (card (set (split (lower (header_context cell))) \<inter> set ?q)) / real (length ?q)"
  define s where
    "s = real (card (set (split (lower (sheet_name cell))) \<inter> set ?q)) / real (length ?q)"
  define x where
    "x = (if header_context cell \<noteq> [] \<and>
             set (split (lower (header_context cell))) \<inter> set ?q \<noteq> {}
          then 0.3 * h else 0)"
  define y where
    "y = (if set (split (lower (sheet_name cell))) \<inter> set ?q \<noteq> {} then 0.2 * s else 0)"
  from overlap_ratio [of "split (lower (header_context cell))" ?q]
  have h: "0 \<le> h" "h \<le> 1" by (simp_all add: h_def)
  from overlap_ratio [of "split (lower (sheet_name cell))" ?q]
  have s: "0 \<le> s" "s \<le> 1" by (simp_all add: s_def)
  have x: "0 \<le> x" "x \<le> 3 / 10" using h by (simp_all add: x_def)
  have y: "0 \<le> y" "y \<le> 2 / 10" using s by (simp_all add: y_def)
  have "calculate_contextual_relevance query cell = min (x + y) 1"
    unfolding x_def y_def h_def s_def by (rule contextual_relevance_unfold)
  with x y show ?thesis by simp
qed

section \<open>The small workbook, evaluated\<close>

lemma ic_costs: "identify_concepts ''costs'' = [''cost of goods sold'', ''total expenses'']"
  by code_simp

lemma str_int_0: "str_int 0 = ''0''" by code_simp
lemma str_int_7: "str_int 7 = ''7''" by code_simp
lemma ref_A1: "get_excel_cell_reference 0 0 = ''A1''" by code_simp
lemma ref_B1: "get_excel_cell_reference 0 1 = ''B1''" by code_simp
lemma lower_Costs: "lower ''Costs'' = ''costs''" by code_simp
lemma lower_costs: "lower ''costs'' = ''costs''" by code_simp

lemma context_demo: "context_text (VInt i) [] [] ''Costs'' = ''costs''"
  by (simp add: context_text_def lower_Costs)

lemma tags_demo: "engine_identify_concepts (VInt 0) [] [] ''Costs'' = [''cost of goods sold'', ''total expenses'']"
   "engine_identify_concepts (VInt 7) [] [] ''Costs'' = [''cost of goods sold'', ''total expenses'']"
  by (simp_all add: engine_identify_concepts_def context_demo ic_costs is_number_def analyze_value_concepts_def number_gt_def dedup_def Let_def)

lemma process_demo: "process_sheet ''Costs'' [[VInt 0, VInt 7]] = 
   [demo_cell 0 0\<lparr>semantic_embedding := None\<rparr>, demo_cell 1 7\<lparr>semantic_embedding := None\<rparr>]"
  by (simp add: process_sheet_def process_cell_def is_blank_def sheet_headers_def enumerate_eq_zip tags_demo demo_cell_def upt_rec)

lemma demo_cells: "cells (demo_engine s) = [demo_cell 0 0, demo_cell 1 7]"
  by (simp add: demo_engine_def load_spreadsheet_data_def demo_sheets_def process_demo compute_cell_embeddings_def rich_text_def demo_cell_def str_value_def const_externals_def str_int_0 str_int_7)

lemma concept_demo:
  "calculate_concept_relevance ''costs'' [''cost of goods sold'', ''total expenses''] = 0.8"
proof -
  have l1: "lower ''cost of goods sold'' = ''cost of goods sold''" by code_simp
  have l2: "lower ''total expenses'' = ''total expenses''" by code_simp
  have s1: "split ''cost of goods sold'' = [''cost'', ''of'', ''goods'', ''sold'']" by code_simp
  have s2: "split ''total expenses'' = [''total'', ''expenses'']" by code_simp
  show ?thesis
    by (simp add: concept_relevance_chain lower_costs l1 l2 s1 s2 ic_costs)
qed

lemma context_relevance_demo: "calculate_contextual_relevance ''costs'' (demo_cell c i) = 0.2"
proof -
  have s1: "split ''costs'' = [''costs'']" by code_simp
  show ?thesis
    by (simp add: calculate_contextual_relevance_def demo_cell_def lower_costs lower_Costs s1 Let_def)
qed

lemma demo_fields:
  "sheet_name (demo_cell c i) = ''Costs''"
  "row (demo_cell c i) = 0"
  "col (demo_cell c i) = c"
  "raw_value (demo_cell c i) = VInt i"
  "formula (demo_cell c i) = []"
  "header_context (demo_cell c i) = []"
  "business_concepts (demo_cell c i) = [''cost of goods sold'', ''total expenses'']"
  "semantic_embedding (demo_cell c i) =
     Some (str_int i @ '' cost of goods sold total expenses Costs'')"
  by (simp_all add: demo_cell_def)

lemma body_demo:
  assumes "- 13 / 20 < s"
  shows "search_body (const_externals s) ''costs'' qe (demo_cell 0 0) [] = [demo_result ''A1'' None s]"
    and "search_body (const_externals s) ''costs'' qe (demo_cell 1 7) [] = [demo_result ''B1'' (Some ''7'') s]"
proof -
  have sc: "s * 0.4 + 0.8 * 0.4 + 0.2 * 0.2 > 0.1" using assms by simp
  note facts = search_body_def Let_def demo_fields demo_result_def const_externals_def
    concept_demo context_relevance_demo truthy_def str_value_def
  show "search_body (const_externals s) ''costs'' qe (demo_cell 0 0) [] = [demo_result ''A1'' None s]"
    using sc by (simp add: facts ref_A1)
  show "search_body (const_externals s) ''costs'' qe (demo_cell 1 7) [] = [demo_result ''B1'' (Some ''7'') s]"
    using sc by (simp add: facts ref_B1 str_int_7)
qed

lemma scored_demo:
  assumes "- 13 / 20 < s"
  shows "scored_results (const_externals s) (demo_engine s) ''costs'' =
           [demo_result ''A1'' None s, demo_result ''B1'' (Some ''7'') s]"
  by (simp add: scored_results_concat demo_cells body_demo [OF assms] del: One_nat_def)

lemma search_demo:
  assumes "- 13 / 20 < s"
  shows "search (const_externals s) (demo_engine s) ''costs'' n =
           slice_to [demo_result ''A1'' None s, demo_result ''B1'' (Some ''7'') s] n"
  by (simp add: search_def demo_cells scored_demo [OF assms] demo_result_def)

section \<open>Weights, floor and order of the results\<close>

text \<open>
  The weighted sum, in exact arithmetic. Every result that a search returns carries the
  final score of one indexed cell, the cell its location names: 0.4 times the cosine
  similarity between the embedding of the expanded query and the embedding of the cell,
  plus 0.4 times the concept score of the raw query against the tags of the cell, plus
  0.2 times the context score. This is a fact about the formula only. How far the float
  operations of the source (on a cosine similarity that the library returns in single
  or double precision) move the result away from this sum is not expressed here.
\<close>

lemma result_weighted_sum:
  assumes "r \<in> set (search ext eng query max_results)"
  shows "\<exists>cell emb.
           cell \<in> set (cells eng) \<and> semantic_embedding cell = Some emb \<and>
           location r = [CHR 0x27] @ sheet_name cell @ [CHR 0x27, CHR ''!''] @
                          get_excel_cell_reference (int (row cell)) (int (col cell)) \<and>
           relevance_score r =
             0.4 * cosine_similarity ext (encode ext (process_query ext eng query)) emb
             + 0.4 * calculate_concept_relevance query (business_concepts cell)
             + 0.2 * calculate_contextual_relevance query cell"
proof -
  let ?qe = "encode ext (process_query ext eng query)"
  from search_result_origin [OF assms] obtain cell
    where c: "cell \<in> set (cells eng)" and b: "search_body ext query ?qe cell [] = [r]"
    by blast
  from search_body_cases [of ext query ?qe cell] b obtain emb
    where "semantic_embedding cell = Some emb"
      and "[r] = [\<lparr>location = [CHR 0x27] @ sheet_name cell @ [CHR 0x27, CHR ''!''] @
                       get_excel_cell_reference (int (row cell)) (int (col cell)),
          result_formula = (if formula cell \<noteq> [] then Some (formula cell) else None),
          result_value = (if truthy (raw_value cell)
                          then Some (str_value ext (raw_value cell)) else None),
          relevance_score = cosine_similarity ext ?qe emb * 0.4
             + calculate_concept_relevance query (business_concepts cell) * 0.4
             + calculate_contextual_relevance query cell * 0.2\<rparr>]"
    by auto
  with c show ?thesis by (intro exI [of _ cell] exI [of _ emb]) simp_all
qed

text \<open>
  C4. Whatever the query and the bound on the number of results, every returned result
  has a final score above 0.10.
\<close>

theorem relevance_floor:
  assumes "r \<in> set (search ext eng query max_results)"
  shows "relevance_score r > 0.10"
proof -
  let ?qe = "encode ext (process_query ext eng query)"
  from search_result_origin [OF assms] obtain cell
    where b: "search_body ext query ?qe cell [] = [r]"
    by blast
  from search_body_cases [of ext query ?qe cell] b show ?thesis
    by auto
qed

theorem relevance_floor_witness:
  "demo_result ''A1'' None (- 1 / 2)
     \<in> set (search (const_externals (- 1 / 2)) (demo_engine (- 1 / 2)) ''costs'' 1)
   \<and> relevance_score (demo_result ''A1'' None (- 1 / 2)) > 0.10"
proof -
  have m: "demo_result ''A1'' None (- 1 / 2)
             \<in> set (search (const_externals (- 1 / 2)) (demo_engine (- 1 / 2)) ''costs'' 1)"
    by (simp add: search_demo slice_to_def)
  from m relevance_floor [OF m] show ?thesis by blast
qed

text \<open>
  C5, as stated, fails for a negative bound: \<^verbatim>\<open>results[:max_results]\<close> with
  \<open>max_results = -1\<close> drops the last entry of the ranked list, so the two cells of the
  workbook give one result, which is more than \<open>-1\<close>.
\<close>

theorem at_most_max_results_counterexample:
  "\<not> int (length (search (const_externals (1 / 2)) (demo_engine (1 / 2)) ''costs'' (- 1))) \<le> - 1"
  by (simp add: search_demo slice_to_def)

text \<open>
  C5, amended. In every returned list the final score is non-increasing from one entry to
  the next, and the entries with one and the same final score are a prefix of the
  entries with that score in the order in which the loop over the indexed cells scored
  them, which is the order of the cells; when max_results is not negative, at most
  max_results entries are returned.
\<close>

theorem ranked_stable_bounded:
  "sorted_wrt (\<lambda>a b. relevance_score a \<ge> relevance_score b) (search ext eng query n)
   \<and> prefix (filter (\<lambda>r. relevance_score r = k) (search ext eng query n))
             (filter (\<lambda>r. relevance_score r = k) (scored_results ext eng query))
   \<and> scored_results ext eng query =
        concat (map (\<lambda>c. search_body ext query (encode ext (process_query ext eng query)) c [])
                  (cells eng))
   \<and> (0 \<le> n \<longrightarrow> int (length (search ext eng query n)) \<le> n)"
proof (intro conjI impI)
  show "sorted_wrt (\<lambda>a b. relevance_score a \<ge> relevance_score b) (search ext eng query n)"
    by (rule sorted_desc_search)
  show "prefix (filter (\<lambda>r. relevance_score r = k) (search ext eng query n))
               (filter (\<lambda>r. relevance_score r = k) (scored_results ext eng query))"
    by (rule stable_search)
  show "scored_results ext eng query =
          concat (map (\<lambda>c. search_body ext query (encode ext (process_query ext eng query)) c [])
                    (cells eng))"
    by (rule scored_results_concat)
  show "int (length (search ext eng query n)) \<le> n" if "0 \<le> n"
    using that by (rule length_search)
qed

theorem ranked_stable_bounded_witness:
  "(0::int) \<le> 1
   \<and> int (length (search (const_externals (1 / 2)) (demo_engine (1 / 2)) ''costs'' 1)) \<le> 1
   \<and> prefix (filter (\<lambda>r. relevance_score r = 14 / 25)
                (search (const_externals (1 / 2)) (demo_engine (1 / 2)) ''costs'' 1))
             (filter (\<lambda>r. relevance_score r = 14 / 25)
                (scored_results (const_externals (1 / 2)) (demo_engine (1 / 2)) ''costs''))"
proof -
  have h: "(0::int) \<le> 1" by simp
  from h ranked_stable_bounded
         [of "const_externals (1 / 2)" "demo_engine (1 / 2)" "''costs''" 1 "14 / 25"]
  show ?thesis by blast
qed

section \<open>The ranges of the scores\<close>

text \<open>
  C9, as stated, fails for the semantic score, which the code never clips: with a cosine
  similarity of \<open>-1/2\<close> (inside [-1,1]) the cell A1 of the workbook is returned for the
  query \<open>costs\<close>, and its semantic score is negative.
\<close>

theorem semantic_score_range_counterexample:
  "demo_cell 0 0 \<in> set (cells (demo_engine (- 1 / 2)))
   \<and> search_body (const_externals (- 1 / 2)) ''costs''
         (encode (const_externals (- 1 / 2))
            (process_query (const_externals (- 1 / 2)) (demo_engine (- 1 / 2)) ''costs''))
         (demo_cell 0 0) [] = [demo_result ''A1'' None (- 1 / 2)]
   \<and> demo_result ''A1'' None (- 1 / 2)
         \<in> set (search (const_externals (- 1 / 2)) (demo_engine (- 1 / 2)) ''costs'' 10)
   \<and> \<not> 0 \<le> cosine_similarity (const_externals (- 1 / 2))
               (encode (const_externals (- 1 / 2))
                  (process_query (const_externals (- 1 / 2)) (demo_engine (- 1 / 2)) ''costs''))
               (the (semantic_embedding (demo_cell 0 0)))"
  by (simp add: demo_cells body_demo search_demo slice_to_def) (simp add: const_externals_def)

text \<open>
  C9, amended. If the cosine similarity of the embedding provider lies in [-1,1], then
  for every returned result the concept score, the context score and the final score lie
  in [0,1], and the semantic score lies in [-1,1].
\<close>

theorem score_ranges:
  assumes "\<forall>a b. - 1 \<le> cosine_similarity ext a b \<and> cosine_similarity ext a b \<le> 1"
      and "r \<in> set (search ext eng query n)"
  shows "\<exists>cell emb.
           cell \<in> set (cells eng) \<and> semantic_embedding cell = Some emb \<and>
           search_body ext query (encode ext (process_query ext eng query)) cell [] = [r] \<and>
           - 1 \<le> cosine_similarity ext (encode ext (process_query ext eng query)) emb \<and>
           cosine_similarity ext (encode ext (process_query ext eng query)) emb \<le> 1 \<and>
           0 \<le> calculate_concept_relevance query (business_concepts cell) \<and>
           calculate_concept_relevance query (business_concepts cell) \<le> 1 \<and>
           0 \<le> calculate_contextual_relevance query cell \<and>
           calculate_contextual_relevance query cell \<le> 1 \<and>
           0 \<le> relevance_score r \<and> relevance_score r \<le> 1"
proof -
  let ?qe = "encode ext (process_query ext eng query)"
  from search_result_origin [OF assms(2)] obtain cell
    where c: "cell \<in> set (cells eng)" and b: "search_body ext query ?qe cell [] = [r]"
    by blast
  let ?con = "calculate_concept_relevance query (business_concepts cell)"
  let ?ctx = "calculate_contextual_relevance query cell"
  from search_body_cases [of ext query ?qe cell] b obtain emb
    where e: "semantic_embedding cell = Some emb"
      and v: "relevance_score r = cosine_similarity ext ?qe emb * 0.4 + ?con * 0.4 + ?ctx * 0.2"
      and f: "cosine_similarity ext ?qe emb * 0.4 + ?con * 0.4 + ?ctx * 0.2 > 0.1"
    by auto
  from assms(1) have s: "- 1 \<le> cosine_similarity ext ?qe emb" "cosine_similarity ext ?qe emb \<le> 1"
    by simp_all
  from concept_relevance_range [of query "business_concepts cell"]
  have con: "0 \<le> ?con" "?con \<le> 1" by simp_all
  from contextual_relevance_range [of query cell]
  have ctx: "0 \<le> ?ctx" "?ctx \<le> 1" by simp_all
  have "0 \<le> relevance_score r" "relevance_score r \<le> 1"
    using v f s con ctx by simp_all
  with c e b s con ctx show ?thesis by blast
qed

theorem score_ranges_witness:
  "(\<forall>a b. - 1 \<le> cosine_similarity (const_externals (- 1 / 2)) a b
            \<and> cosine_similarity (const_externals (- 1 / 2)) a b \<le> 1)
   \<and> demo_result ''B1'' (Some ''7'') (- 1 / 2)
         \<in> set (search (const_externals (- 1 / 2)) (demo_engine (- 1 / 2)) ''costs'' 2)
   \<and> 0 \<le> relevance_score (demo_result ''B1'' (Some ''7'') (- 1 / 2))
   \<and> relevance_score (demo_result ''B1'' (Some ''7'') (- 1 / 2)) \<le> 1"
proof -
  have h: "\<forall>a b. - 1 \<le> cosine_similarity (const_externals (- 1 / 2)) a b
            \<and> cosine_similarity (const_externals (- 1 / 2)) a b \<le> 1"
    by (simp add: const_externals_def)
  have m: "demo_result ''B1'' (Some ''7'') (- 1 / 2)
         \<in> set (search (const_externals (- 1 / 2)) (demo_engine (- 1 / 2)) ''costs'' 2)"
    by (simp add: search_demo slice_to_def)
  from h m score_ranges [OF h m] show ?thesis by blast
qed

section \<open>Cells whose value is the number 0\<close>

lemma in_concat_map: "x \<in> set xs \<Longrightarrow> y \<in> set (f x) \<Longrightarrow> y \<in> set (concat (map f xs))"
  by auto

lemma process_cell_nonblank:
  "\<not> is_blank v \<Longrightarrow>
   \<exists>cell. process_cell sheet headers i j v = [cell] \<and> sheet_name cell = sheet \<and>
          row cell = i \<and> col cell = j \<and> raw_value cell = v"
  by (simp add: process_cell_def Let_def)

lemma process_sheet_member:
  assumes "i < length data" and "j < length (data ! i)" and "\<not> is_blank (data ! i ! j)"
  shows "\<exists>cell. (cell :: 'e SpreadsheetCell) \<in> set (process_sheet sheet data) \<and> sheet_name cell = sheet \<and>
           row cell = i \<and> col cell = j \<and> raw_value cell = data ! i ! j"
proof -
  from assms(1) have ne: "data \<noteq> []" by auto
  let ?h = "sheet_headers (hd data)"
  from process_cell_nonblank [OF assms(3), of sheet ?h i j] obtain cell :: "'e SpreadsheetCell"
    where pc: "process_cell sheet ?h i j (data ! i ! j) = [cell]"
      and f: "sheet_name cell = sheet" "row cell = i" "col cell = j" "raw_value cell = data ! i ! j"
    by blast
  have r: "(i, data ! i) \<in> set (enumerate 0 data)"
    using assms(1) by (simp add: in_set_enumerate_eq)
  have c: "(j, data ! i ! j) \<in> set (enumerate 0 (data ! i))"
    using assms(2) by (simp add: in_set_enumerate_eq)
  have inner: "cell \<in> set (concat (map (\<lambda>(col_idx, v). process_cell sheet ?h i col_idx v)
                                       (enumerate 0 (data ! i))))"
    by (rule in_concat_map [OF c]) (simp add: pc)
  have "cell \<in> set (concat (map (\<lambda>(row_idx, r).
                     concat (map (\<lambda>(col_idx, v). process_cell sheet ?h row_idx col_idx v)
                               (enumerate 0 r)))
                  (enumerate 0 data)))"
    by (rule in_concat_map [OF r]) (use inner in simp)
  then have "cell \<in> set (process_sheet sheet data)"
    using ne by (simp only: process_sheet_def Let_def if_False)
  with f show ?thesis by blast
qed

lemma load_member:
  assumes "(sheet, data) \<in> set sheets"
      and "i < length data" and "j < length (data ! i)" and "\<not> is_blank (data ! i ! j)"
  shows "\<exists>cell. cell \<in> set (cells (load_spreadsheet_data ext eng sheets)) \<and>
           sheet_name cell = sheet \<and> row cell = i \<and> col cell = j \<and>
           raw_value cell = data ! i ! j"
proof -
  from process_sheet_member [OF assms(2-4), of sheet] obtain cell :: "'a SpreadsheetCell"
    where m: "cell \<in> set (process_sheet sheet data)"
      and f: "sheet_name cell = sheet" "row cell = i" "col cell = j" "raw_value cell = data ! i ! j"
    by blast
  let ?c = "cell\<lparr>semantic_embedding := Some (encode ext (rich_text ext cell))\<rparr>"
  have "cell \<in> set (concat (map (\<lambda>(sheet, data). process_sheet sheet data) sheets))"
    by (rule in_concat_map [OF assms(1)]) (use m in simp)
  then have "?c \<in> set (cells (load_spreadsheet_data ext eng sheets))"
    by (simp add: load_spreadsheet_data_def compute_cell_embeddings_def)
  with f show ?thesis by (intro exI [of _ ?c]) simp
qed

lemma zero_not_blank: "\<not> is_blank (VInt 0)" "\<not> is_blank (VFloat 0)"
  by (simp_all add: is_blank_def)

lemma zero_value_field:
  assumes "raw_value cell = VInt 0 \<or> raw_value cell = VFloat 0"
      and "r \<in> set (search_body ext query qe cell [])"
  shows "result_value r = None"
proof -
  from assms(1) have "\<not> truthy (raw_value cell)" by (auto simp: truthy_def)
  with search_body_cases [of ext query qe cell] assms(2) show ?thesis by auto
qed

text \<open>
  C10. A grid position that holds the number 0 (as an int or as a float) is indexed: the
  loaded engine has a cell for it, with that sheet, row, column and value. Every result
  that a search returns is the result that the loop body builds for one of the indexed
  cells. And the result that the loop body builds for a cell whose value is the number 0
  has no value: the field is None, not the text of the number.
\<close>

theorem zero_value_result_none:
  "((sheet, data) \<in> set sheets \<and> i < length data \<and> j < length (data ! i) \<and>
      (data ! i ! j = VInt 0 \<or> data ! i ! j = VFloat 0)
      \<longrightarrow> (\<exists>cell. cell \<in> set (cells (load_spreadsheet_data ext eng0 sheets)) \<and>
               sheet_name cell = sheet \<and> row cell = i \<and> col cell = j \<and>
               raw_value cell = data ! i ! j))
   \<and> (r \<in> set (search ext eng query n)
      \<longrightarrow> (\<exists>cell. cell \<in> set (cells eng) \<and>
               search_body ext query (encode ext (process_query ext eng query)) cell [] = [r]))
   \<and> ((raw_value c = VInt 0 \<or> raw_value c = VFloat 0) \<and> search_body ext query qe c [] = [r']
      \<longrightarrow> result_value r' = None)"
proof (intro conjI impI)
  assume a: "(sheet, data) \<in> set sheets \<and> i < length data \<and> j < length (data ! i) \<and>
      (data ! i ! j = VInt 0 \<or> data ! i ! j = VFloat 0)"
  then have "\<not> is_blank (data ! i ! j)" using zero_not_blank by auto
  with a load_member [of sheet data sheets i j ext eng0]
  show "\<exists>cell. cell \<in> set (cells (load_spreadsheet_data ext eng0 sheets)) \<and>
               sheet_name cell = sheet \<and> row cell = i \<and> col cell = j \<and>
               raw_value cell = data ! i ! j"
    by blast
next
  assume "r \<in> set (search ext eng query n)"
  from search_result_origin [OF this]
  show "\<exists>cell. cell \<in> set (cells eng) \<and>
               search_body ext query (encode ext (process_query ext eng query)) cell [] = [r]"
    by blast
next
  assume a: "(raw_value c = VInt 0 \<or> raw_value c = VFloat 0) \<and> search_body ext query qe c [] = [r']"
  then have "r' \<in> set (search_body ext query qe c [])" by simp
  with a zero_value_field [of c r' ext query qe] show "result_value r' = None" by blast
qed

theorem zero_value_result_none_witness:
  "(''Costs'', [[VInt 0, VInt 7]]) \<in> set demo_sheets \<and> (0::nat) < length [[VInt 0, VInt 7]]
   \<and> (0::nat) < length ([[VInt 0, VInt 7]] ! 0) \<and> [[VInt 0, VInt 7]] ! 0 ! 0 = VInt 0
   \<and> demo_result ''A1'' None (1 / 2)
        \<in> set (search (const_externals (1 / 2)) (demo_engine (1 / 2)) ''costs'' 10)
   \<and> raw_value (demo_cell 0 0) = VInt 0
   \<and> search_body (const_externals (1 / 2)) ''costs'' ''costs'' (demo_cell 0 0) []
        = [demo_result ''A1'' None (1 / 2)]
   \<and> result_value (demo_result ''A1'' None (1 / 2)) = None
   \<and> (\<exists>cell. cell \<in> set (cells (demo_engine (1 / 2))) \<and>
               sheet_name cell = ''Costs'' \<and> row cell = 0 \<and> col cell = 0 \<and>
               raw_value cell = VInt 0)"
proof -
  let ?x = "const_externals (1 / 2)"
  let ?r = "demo_result ''A1'' None (1 / 2)"
  have g1: "(''Costs'', [[VInt 0, VInt 7]]) \<in> set demo_sheets" "(0::nat) < length [[VInt 0, VInt 7]]"
      "(0::nat) < length ([[VInt 0, VInt 7]] ! 0)" "[[VInt 0, VInt 7]] ! 0 ! 0 = VInt 0"
    by (simp_all add: demo_sheets_def)
  have g2: "?r \<in> set (search ?x (demo_engine (1 / 2)) ''costs'' 10)"
    by (simp add: search_demo slice_to_def)
  have g3: "raw_value (demo_cell 0 0) = VInt 0"
    by (simp add: demo_fields)
  have g4: "search_body ?x ''costs'' ''costs'' (demo_cell 0 0) [] = [?r]"
    by (simp add: body_demo)
  note T = zero_value_result_none
         [of "''Costs''" "[[VInt 0, VInt 7]]" demo_sheets 0 0 ?x "init ?x" ?r
             "demo_engine (1 / 2)" "''costs''" 10 "demo_cell 0 0" "''costs''" ?r]
  have "\<exists>cell. cell \<in> set (cells (load_spreadsheet_data ?x (init ?x) demo_sheets)) \<and>
               sheet_name cell = ''Costs'' \<and> row cell = 0 \<and> col cell = 0 \<and>
               raw_value cell = [[VInt 0, VInt 7]] ! 0 ! 0"
    by (rule T [THEN conjunct1, THEN mp]) (intro conjI disjI1 g1)
  then have c1: "\<exists>cell. cell \<in> set (cells (demo_engine (1 / 2))) \<and>
               sheet_name cell = ''Costs'' \<and> row cell = 0 \<and> col cell = 0 \<and>
               raw_value cell = VInt 0"
    by (simp only: demo_engine_def g1(4))
  have c3: "result_value ?r = None"
    by (rule T [THEN conjunct2, THEN conjunct2, THEN mp]) (intro conjI disjI1 g3 g4)
  show ?thesis
    by (intro conjI g1 g2 g3 g4 c3 c1)
qed

section \<open>The rules of the concept score\<close>

lemma letters_disjoint: "\<forall>d\<in>set lower_letters. d \<notin> set upper_letters"
  by (simp add: lower_letters_def upper_letters_def)

lemma lower_char_cases:
  "lower_char c = c \<or> (c \<in> set upper_letters \<and> lower_char c \<in> set lower_letters)"
proof (cases "map_of (zip upper_letters lower_letters) c")
  case None
  then show ?thesis by (simp add: lower_char_def)
next
  case (Some d)
  then have "(c, d) \<in> set (zip upper_letters lower_letters)" by (rule map_of_SomeD)
  then have "c \<in> set upper_letters" "d \<in> set lower_letters"
    by (auto dest: set_zip_leftD set_zip_rightD)
  with Some show ?thesis by (simp add: lower_char_def)
qed

lemma lower_char_fixed: "c \<notin> set upper_letters \<Longrightarrow> lower_char c = c"
  using lower_char_cases [of c] by blast

lemma lower_char_idem: "lower_char (lower_char c) = lower_char c"
proof -
  from lower_char_cases [of c] show ?thesis
  proof
    assume "lower_char c = c"
    then show ?thesis by simp
  next
    assume "c \<in> set upper_letters \<and> lower_char c \<in> set lower_letters"
    with letters_disjoint have "lower_char c \<notin> set upper_letters" by blast
    then show ?thesis by (rule lower_char_fixed)
  qed
qed

lemma lower_idem: "lower (lower s) = lower s"
  by (simp add: lower_def lower_char_idem)

lemma lower_char_keeps:
  assumes "x \<notin> set upper_letters" and "x \<notin> set lower_letters"
  shows "lower_char c = x \<longleftrightarrow> c = x"
  using lower_char_cases [of c] lower_char_fixed [of x] assms by auto

lemma str_in_single: "str_in [x] s \<longleftrightarrow> x \<in> set s"
  by (induction s) auto

lemma lower_keeps_member:
  assumes "x \<notin> set upper_letters" and "x \<notin> set lower_letters"
  shows "x \<in> set (lower s) \<longleftrightarrow> x \<in> set s"
proof -
  have k: "(x = lower_char c) = (x = c)" for c
    using lower_char_keeps [OF assms, of c] by (simp add: eq_commute)
  show ?thesis by (induction s) (simp_all add: lower_def k)
qed

lemma lower_keeps_first:
  assumes "x \<notin> set upper_letters" and "x \<notin> set lower_letters"
  shows "startswith (lower s) [x] \<longleftrightarrow> startswith s [x]"
proof -
  have k: "(x = lower_char c) = (x = c)" for c
    using lower_char_keeps [OF assms, of c] by (simp add: eq_commute)
  show ?thesis by (cases s) (simp_all add: lower_def startswith_def k)
qed

lemma formula_concepts_lower:
  "identify_formula_concepts (lower text) = identify_formula_concepts text"
proof -
  have eq: "CHR ''='' \<notin> set upper_letters" "CHR ''='' \<notin> set lower_letters"
    and sl: "CHR ''/'' \<notin> set upper_letters" "CHR ''/'' \<notin> set lower_letters"
    by (simp_all add: upper_letters_def lower_letters_def)
  have a: "startswith (lower text) ''='' \<longleftrightarrow> startswith text ''=''"
    by (rule lower_keeps_first [OF eq])
  have b: "str_in ''/'' (lower text) \<longleftrightarrow> str_in ''/'' text"
    by (simp only: str_in_single lower_keeps_member [OF sl])
  show ?thesis
    unfolding identify_formula_concepts_def Let_def lower_idem a b ..
qed

lemma identify_concepts_lower: "identify_concepts (lower text) = identify_concepts text"
  unfolding identify_concepts_def Let_def lower_idem formula_concepts_lower ..

text \<open>
  C2, as stated, fails: the code tests a word of a tag with Python's \<^verbatim>\<open>in\<close> on the
  query string, a substring test. For the query \<open>costs\<close> and the single tag
  \<open>cost calculation\<close> the word \<open>cost\<close> is a substring of the query but not one of
  its words, and no other rule fires: the code gives 0.7, the rules as stated give 0.
\<close>

theorem concept_score_counterexample:
  "calculate_concept_relevance ''costs'' [''cost calculation''] = 7 / 10
   \<and> spec_concept_score ''costs'' [''cost calculation''] = 0"
proof -
  have l: "lower ''cost calculation'' = ''cost calculation''" by code_simp
  have s: "split ''cost calculation'' = [''cost'', ''calculation'']" by code_simp
  have q: "split ''costs'' = [''costs'']" by code_simp
  have "calculate_concept_relevance ''costs'' [''cost calculation''] = 7 / 10"
    by (simp add: concept_relevance_chain lower_costs l s ic_costs)
  moreover have "spec_concept_score ''costs'' [''cost calculation''] = 0"
    by (simp add: spec_concept_score_def lower_costs s q ic_costs)
  ultimately show ?thesis by simp
qed

text \<open>
  C2, amended. The concept score is 0 if the cell has no tags. Otherwise it is the
  largest of: 1.0 if some tag, lower-cased, is a substring of the lower-cased query; 0.8
  if the tagger's tags of the raw query share a tag with the cell; 0.7 if some word of a
  lower-cased tag is a substring of the lower-cased query; and 0.0 if no rule fires.
  (The code tags the lower-cased query; the tagger gives the same tags for a text and for
  its lower-cased form.)
\<close>

theorem concept_score_rules:
  "calculate_concept_relevance query tags =
     (if tags = [] then 0
      else if list_ex (\<lambda>tag. str_in (lower tag) (lower query)) tags then 1
      else if set (identify_concepts query) \<inter> set tags \<noteq> {} then 0.8
      else if list_ex (\<lambda>tag. list_ex (\<lambda>word. str_in word (lower query)) (split (lower tag))) tags
           then 0.7
      else 0)"
proof -
  have "set tags \<inter> set (identify_concepts (lower query)) = set (identify_concepts query) \<inter> set tags"
    by (simp only: identify_concepts_lower Int_commute)
  then show ?thesis by (simp only: concept_relevance_chain)
qed

theorem concept_score_rules_witness:
  "calculate_concept_relevance ''costs'' [''cost of goods sold'', ''total expenses''] = 4 / 5"
proof -
  have l1: "lower ''cost of goods sold'' = ''cost of goods sold''" by code_simp
  have l2: "lower ''total expenses'' = ''total expenses''" by code_simp
  from concept_score_rules [of "''costs''" "[''cost of goods sold'', ''total expenses'']"]
  show ?thesis by (simp add: lower_costs l1 l2 ic_costs)
qed

section \<open>What the tagger matches\<close>

lemma distinct_names: "distinct (map name catalog)"
  by code_simp

lemma name_inj: "c \<in> set catalog \<Longrightarrow> c' \<in> set catalog \<Longrightarrow> name c = name c' \<Longrightarrow> c = c'"
  using distinct_names by (simp add: distinct_map inj_on_def)

lemma set_identify_concepts:
  "set (identify_concepts text) =
     name ` {c \<in> set catalog. matches_concept (lower text) c}
     \<union> set (identify_patterns (lower text)) \<union> set (identify_formula_concepts text)"
  by (simp add: identify_concepts_def dedup_def Let_def Un_assoc)

lemma tagged_iff:
  assumes "c \<in> set catalog"
  shows "name c \<in> set (identify_concepts text) \<longleftrightarrow>
           matches_concept (lower text) c
           \<or> name c \<in> set (identify_patterns (lower text))
           \<or> name c \<in> set (identify_formula_concepts text)"
proof -
  have "name c \<in> name ` {c \<in> set catalog. matches_concept (lower text) c}
          \<longleftrightarrow> matches_concept (lower text) c"
    using assms name_inj [OF assms] by auto
  then show ?thesis by (simp add: set_identify_concepts)
qed

lemma rule_labels:
  "set (identify_patterns t) \<union> set (identify_formula_concepts t')
     \<subseteq> {''ratio calculation'', ''percentage calculation'', ''growth metric'',
         ''profitability metric'', ''sum calculation'', ''aggregation formula'',
         ''average calculation'', ''conditional calculation'', ''lookup formula''}"
  by (auto simp: identify_patterns_def identify_formula_concepts_def Let_def split: if_splits)

lemma other_categories:
  "list_all (\<lambda>c. category c = ''formulas'' \<or>
       name c \<notin> set [''ratio calculation'', ''percentage calculation'', ''growth metric'',
         ''profitability metric'', ''sum calculation'', ''aggregation formula'',
         ''average calculation'', ''conditional calculation'', ''lookup formula'']) catalog"
  by code_simp

lemma hd_costs: "hd costs \<in> set catalog" "name (hd costs) = ''cost of goods sold''"
  by (simp_all add: catalog_def concepts_def costs_def mk_concept_def)

text \<open>
  C3, as stated, fails: \<^verbatim>\<open>word in text\<close> in \<^verbatim>\<open>_matches_concept\<close> is on a string, so it
  is substring containment. The text \<open>costs\<close> is tagged \<open>cost of goods sold\<close>, through
  the keyword \<open>cost\<close>, although no term of that concept has all of its words among the
  words of the text.
\<close>

theorem tagger_word_containment_counterexample:
  "hd costs \<in> set catalog \<and> name (hd costs) \<in> set (identify_concepts ''costs'')
   \<and> \<not> spec_word_match ''costs'' (hd costs)"
proof -
  have "\<not> spec_word_match ''costs'' (hd costs)" by code_simp
  then show ?thesis by (simp add: hd_costs ic_costs)
qed

text \<open>
  C3, amended. For every input text and every catalog concept, the tagger tags the text
  with the name of the concept if and only if some term from the name, synonyms and
  keywords of the concept has all of its words occurring as substrings of the lower-cased
  text, or the name is one that the pattern rules or the formula rules give for the text.
  The second case can only arise for the concepts of the category \<open>formulas\<close>: for the
  concepts of every other category the substring condition alone decides.
\<close>

theorem tagger_substring_match:
  assumes "c \<in> set catalog"
  shows "(name c \<in> set (identify_concepts text) \<longleftrightarrow>
            list_ex (\<lambda>trm. list_all (\<lambda>word. str_in word (lower text)) (split (lower trm)))
              ([name c] @ synonyms c @ key_words c)
            \<or> name c \<in> set (identify_patterns (lower text))
            \<or> name c \<in> set (identify_formula_concepts text))
       \<and> (category c \<noteq> ''formulas'' \<longrightarrow>
            (name c \<in> set (identify_concepts text) \<longleftrightarrow>
               list_ex (\<lambda>trm. list_all (\<lambda>word. str_in word (lower text)) (split (lower trm)))
                 ([name c] @ synonyms c @ key_words c)))"
proof -
  let ?m = "list_ex (\<lambda>trm. list_all (\<lambda>word. str_in word (lower text)) (split (lower trm)))
              ([name c] @ synonyms c @ key_words c)"
  have m: "matches_concept (lower text) c = ?m"
    by (simp add: matches_concept_def Let_def)
  have general: "name c \<in> set (identify_concepts text) \<longleftrightarrow>
            ?m \<or> name c \<in> set (identify_patterns (lower text))
               \<or> name c \<in> set (identify_formula_concepts text)"
    using tagged_iff [OF assms, of "text"] by (simp only: m)
  have "name c \<notin> set (identify_patterns (lower text)) \<and>
        name c \<notin> set (identify_formula_concepts text)" if other: "category c \<noteq> ''formulas''"
  proof -
    from other_categories assms other
    have "name c \<notin> set [''ratio calculation'', ''percentage calculation'', ''growth metric'',
         ''profitability metric'', ''sum calculation'', ''aggregation formula'',
         ''average calculation'', ''conditional calculation'', ''lookup formula'']"
      unfolding list_all_iff by blast
    with rule_labels [of "lower text" "text"] show ?thesis by auto
  qed
  with general show ?thesis by blast
qed

theorem tagger_substring_match_witness:
  "hd costs \<in> set catalog \<and> category (hd costs) \<noteq> ''formulas''
   \<and> name (hd costs) \<in> set (identify_concepts ''costs'')
   \<and> list_ex (\<lambda>trm. list_all (\<lambda>word. str_in word (lower ''costs'')) (split (lower trm)))
        ([name (hd costs)] @ synonyms (hd costs) @ key_words (hd costs))"
proof -
  have c: "hd costs \<in> set catalog" by (rule hd_costs)
  have o: "category (hd costs) \<noteq> ''formulas''"
    by (simp add: costs_def mk_concept_def)
  have t: "name (hd costs) \<in> set (identify_concepts ''costs'')"
    by (simp add: hd_costs ic_costs)
  from tagger_substring_match [OF c, of "''costs''"] c o t show ?thesis by blast
qed

section \<open>The context string of a cell\<close>

lemma concat_map_member: "y \<in> set (concat (map f xs)) \<Longrightarrow> \<exists>x\<in>set xs. y \<in> set (f x)"
  by auto

lemma process_cell_fields:
  assumes "cell \<in> set (process_cell sheet headers i j v)"
  shows "sheet_name cell = sheet \<and> raw_value cell = v \<and>
         formula cell = (case v of VStr s \<Rightarrow> if startswith s ''='' then s else [] | _ \<Rightarrow> []) \<and>
         business_concepts cell =
           engine_identify_concepts (raw_value cell) (formula cell) (header_context cell)
             (sheet_name cell)"
proof (cases "is_blank v")
  case True
  with assms show ?thesis by (simp add: process_cell_def)
next
  case False
  with assms show ?thesis by (simp add: process_cell_def Let_def)
qed

lemma process_sheet_fields:
  assumes "cell \<in> set (process_sheet sheet data)"
  shows "sheet_name cell = sheet \<and>
         (is_number (raw_value cell) \<longrightarrow> formula cell = []) \<and>
         business_concepts cell =
           engine_identify_concepts (raw_value cell) (formula cell) (header_context cell)
             (sheet_name cell)"
proof -
  let ?h = "sheet_headers (hd data)"
  let ?inner = "\<lambda>(row_idx, r). concat (map (\<lambda>(col_idx, v). process_cell sheet ?h row_idx col_idx v)
                               (enumerate 0 r))"
  from assms have "cell \<in> set (concat (map ?inner (enumerate 0 data)))"
    by (cases "data = []") (simp_all add: process_sheet_def Let_def)
  from concat_map_member [OF this] obtain x
    where "cell \<in> set (?inner x)" by blast
  then obtain i r
    where "cell \<in> set (concat (map (\<lambda>(col_idx, v). process_cell sheet ?h i col_idx v)
                                  (enumerate 0 r)))"
    by (cases x) simp
  from concat_map_member [OF this] obtain y
    where "cell \<in> set ((\<lambda>(col_idx, v). process_cell sheet ?h i col_idx v) y)" by blast
  then obtain j v
    where "cell \<in> set (process_cell sheet ?h i j v)"
    by (cases y) simp
  from process_cell_fields [OF this] show ?thesis
    by (auto simp: is_number_def split: cell_value.splits)
qed

lemma set_engine_identify_concepts:
  "set (engine_identify_concepts v frm header sheet) =
     set (identify_concepts (context_text v frm header sheet))
     \<union> set (if frm \<noteq> [] then analyze_formula_concepts frm header else [])
     \<union> set (if is_number v
            then analyze_value_concepts v header (context_text v frm header sheet) else [])"
  by (simp add: engine_identify_concepts_def dedup_def Let_def Un_assoc)

lemma context_text_number:
  "is_number v \<Longrightarrow> context_text v [] header sheet =
     lower (join '' '' ((if header \<noteq> [] then [header] else []) @ [sheet]))"
  by (cases v) (simp_all add: context_text_def is_number_def)

text \<open>
  C8, as stated, fails for numeric values: \<^verbatim>\<open>_identify_concepts\<close> adds the value to the
  context only under \<^verbatim>\<open>isinstance(value, str)\<close>. For the number 7 in the sheet
  \<open>Costs\<close> the context string is \<open>costs\<close>, without the numeral.
\<close>

theorem context_string_counterexample:
  "context_text (VInt 7) [] [] ''Costs'' = ''costs''
   \<and> spec_context_text (const_externals 0) (VInt 7) [] [] ''Costs'' = ''7 costs''"
proof -
  have "lower ''7 Costs'' = ''7 costs''" by code_simp
  then show ?thesis
    by (simp add: context_demo spec_context_text_def str_value_def str_int_7)
qed

text \<open>
  C8, amended. For every cell that the indexer emits, the context string is the
  lower-cased join, with single spaces, of the header context (when not empty), the value
  (when it is a string), the formula (when not empty) and the sheet name; a numeric value
  contributes nothing, so for it the string is built from the header context and the
  sheet name alone. The tags of the cell are the tags that the tagger derives from that
  string, together with those of the formula rules and of the value rules.
\<close>

theorem indexer_context_tags:
  assumes "cell \<in> set (process_sheet sheet data)"
  shows "context_text (raw_value cell) (formula cell) (header_context cell) (sheet_name cell) =
           lower (join '' ''
             ((if header_context cell \<noteq> [] then [header_context cell] else []) @
              (case raw_value cell of VStr s \<Rightarrow> [s] | _ \<Rightarrow> []) @
              (if formula cell \<noteq> [] then [formula cell] else []) @
              [sheet_name cell]))
       \<and> (is_number (raw_value cell) \<longrightarrow>
            context_text (raw_value cell) (formula cell) (header_context cell) (sheet_name cell) =
              lower (join '' ''
                ((if header_context cell \<noteq> [] then [header_context cell] else []) @
                 [sheet_name cell])))
       \<and> set (business_concepts cell) =
            set (identify_concepts
                   (context_text (raw_value cell) (formula cell) (header_context cell)
                      (sheet_name cell)))
            \<union> set (if formula cell \<noteq> []
                   then analyze_formula_concepts (formula cell) (header_context cell) else [])
            \<union> set (if is_number (raw_value cell)
                   then analyze_value_concepts (raw_value cell) (header_context cell)
                          (context_text (raw_value cell) (formula cell) (header_context cell)
                             (sheet_name cell))
                   else [])"
proof (intro conjI impI)
  show "context_text (raw_value cell) (formula cell) (header_context cell) (sheet_name cell) =
           lower (join '' ''
             ((if header_context cell \<noteq> [] then [header_context cell] else []) @
              (case raw_value cell of VStr s \<Rightarrow> [s] | _ \<Rightarrow> []) @
              (if formula cell \<noteq> [] then [formula cell] else []) @
              [sheet_name cell]))"
    by (simp add: context_text_def)
next
  assume n: "is_number (raw_value cell)"
  with process_sheet_fields [OF assms] have "formula cell = []" by blast
  with context_text_number [OF n, of "header_context cell" "sheet_name cell"]
  show "context_text (raw_value cell) (formula cell) (header_context cell) (sheet_name cell) =
              lower (join '' ''
                ((if header_context cell \<noteq> [] then [header_context cell] else []) @
                 [sheet_name cell]))"
    by simp
next
  from process_sheet_fields [OF assms]
  have "business_concepts cell =
           engine_identify_concepts (raw_value cell) (formula cell) (header_context cell)
             (sheet_name cell)"
    by blast
  then show "set (business_concepts cell) =
            set (identify_concepts
                   (context_text (raw_value cell) (formula cell) (header_context cell)
                      (sheet_name cell)))
            \<union> set (if formula cell \<noteq> []
                   then analyze_formula_concepts (formula cell) (header_context cell) else [])
            \<union> set (if is_number (raw_value cell)
                   then analyze_value_concepts (raw_value cell) (header_context cell)
                          (context_text (raw_value cell) (formula cell) (header_context cell)
                             (sheet_name cell))
                   else [])"
    by (simp only: set_engine_identify_concepts)
qed

theorem indexer_context_tags_witness:
  "(demo_cell 1 7\<lparr>semantic_embedding := None\<rparr>) \<in> set (process_sheet ''Costs'' [[VInt 0, VInt 7]])
   \<and> is_number (raw_value (demo_cell 1 7\<lparr>semantic_embedding := None\<rparr>))
   \<and> context_text (VInt 7) [] [] ''Costs'' = lower (join '' '' [''Costs''])"
proof -
  let ?w = "demo_cell 1 7\<lparr>semantic_embedding := None\<rparr>"
  have m: "?w \<in> set (process_sheet ''Costs'' [[VInt 0, VInt 7]])"
    by (simp add: process_demo)
  have n: "is_number (raw_value ?w)"
    by (simp add: demo_cell_def is_number_def)
  from indexer_context_tags [OF m] n
  have "context_text (raw_value ?w) (formula ?w) (header_context ?w) (sheet_name ?w) =
              lower (join '' ''
                ((if header_context ?w \<noteq> [] then [header_context ?w] else []) @
                 [sheet_name ?w]))"
    by blast
  then have "context_text (VInt 7) [] [] ''Costs'' = lower (join '' '' [''Costs''])"
    by (simp add: demo_cell_def)
  with m n show ?thesis by blast
qed

end
